theory Spec2Isabelle
  imports Complex_Main
begin

section \<open>Strings as Python sees them\<close>

text \<open>
  Python strings are modelled as \<^typ>\<open>string\<close>; a character is a code point below 256.
  \<open>str.strip()\<close> removes the characters for which \<open>str.isspace()\<close> holds: in this range
  the code points 9 to 13, 28 to 32, 133 and 160.
\<close>

definition py_isspace :: "char \<Rightarrow> bool" where
  "py_isspace c \<longleftrightarrow> (of_char c :: nat) \<in> {9, 10, 11, 12, 13, 28, 29, 30, 31, 32, 133, 160}"

definition strip :: "string \<Rightarrow> string" where
  "strip s = rev (dropWhile py_isspace (rev (dropWhile py_isspace s)))"

section \<open>Result schema (ai\_schemas.py)\<close>

datatype TaskType = inspection | maintenance | safety | startup | shutdown

datatype QualityLevel = excellent | good | fair | poor

definition TaskType_value :: "TaskType \<Rightarrow> string" where
  "TaskType_value t = (case t of inspection \<Rightarrow> ''inspection'' | maintenance \<Rightarrow> ''maintenance''
     | safety \<Rightarrow> ''safety'' | startup \<Rightarrow> ''startup'' | shutdown \<Rightarrow> ''shutdown'')"

definition TaskType_of :: "string \<Rightarrow> TaskType option" where
  "TaskType_of s =
     (if s = ''inspection'' then Some inspection
      else if s = ''maintenance'' then Some maintenance
      else if s = ''safety'' then Some safety
      else if s = ''startup'' then Some startup
      else if s = ''shutdown'' then Some shutdown
      else None)"

definition QualityLevel_value :: "QualityLevel \<Rightarrow> string" where
  "QualityLevel_value q = (case q of excellent \<Rightarrow> ''excellent'' | good \<Rightarrow> ''good''
     | fair \<Rightarrow> ''fair'' | poor \<Rightarrow> ''poor'')"

definition QualityLevel_of :: "string \<Rightarrow> QualityLevel option" where
  "QualityLevel_of s =
     (if s = ''excellent'' then Some excellent
      else if s = ''good'' then Some good
      else if s = ''fair'' then Some fair
      else if s = ''poor'' then Some poor
      else None)"

text \<open>
  A Python float is a finite value (a rational), an infinity or NaN. The comparisons of the
  \<open>ge\<close> and \<open>le\<close> constraints are false as soon as NaN is involved.
\<close>

datatype pyfloat = Finite rat | PosInf | NegInf | NaN

fun float_ge :: "pyfloat \<Rightarrow> rat \<Rightarrow> bool" where
  "float_ge (Finite q) b = (b \<le> q)"
| "float_ge PosInf b = True"
| "float_ge NegInf b = False"
| "float_ge NaN b = False"

fun float_le :: "pyfloat \<Rightarrow> rat \<Rightarrow> bool" where
  "float_le (Finite q) b = (q \<le> b)"
| "float_le PosInf b = False"
| "float_le NegInf b = True"
| "float_le NaN b = False"


text \<open>The validated models. Field names carry a prefix, since several classes share them.\<close>

record TaskSchema =
  task_number :: "int option"
  task_description :: string
  task_type :: TaskType
  task_requirements :: "string option"
  task_safety_notes :: "string option"
  task_estimated_time :: "int option"

record SystemSchema =
  sys_name :: string
  sys_description :: "string option"
  sys_category :: "string option"
  sys_location :: "string option"
  sys_manufacturer :: "string option"
  sys_model :: "string option"
  sys_tasks :: "TaskSchema list"

record DocumentMetadata =
  md_title :: "string option"
  md_document_type :: "string option"
  md_facility :: "string option"
  md_department :: "string option"
  md_revision :: "string option"
  md_date :: "string option"
  md_author :: "string option"
  md_approval :: "string option"

record AIExtractionResult =
  success :: bool
  confidence :: pyfloat
  processing_method :: string
  metadata :: "DocumentMetadata option"
  systems :: "SystemSchema list"
  total_systems :: int
  total_tasks :: int
  processing_time :: "pyfloat option"
  extraction_quality :: "QualityLevel option"
  warnings :: "string list option"

text \<open>
  The candidate structures handed to the constructors: dictionaries whose present keys hold
  values of the field's type. \<open>None\<close> is an absent key (for the optional fields also an
  explicit null); enumeration fields arrive as strings.
\<close>

record raw_task =
  rt_number :: "int option"
  rt_description :: "string option"
  rt_type :: "string option"
  rt_requirements :: "string option"
  rt_safety_notes :: "string option"
  rt_estimated_time :: "int option"

record raw_system =
  rs_name :: "string option"
  rs_description :: "string option"
  rs_category :: "string option"
  rs_location :: "string option"
  rs_manufacturer :: "string option"
  rs_model :: "string option"
  rs_tasks :: "raw_task list option"

record raw_result =
  rr_success :: "bool option"
  rr_confidence :: "pyfloat option"
  rr_processing_method :: "string option"
  rr_metadata :: "DocumentMetadata option"
  rr_systems :: "raw_system list option"
  rr_total_systems :: "int option"
  rr_total_tasks :: "int option"
  rr_processing_time :: "pyfloat option"
  rr_extraction_quality :: "string option"
  rr_warnings :: "string list option"

text \<open>
  A validation error names the field and the check that failed; the wording of the library's
  message is not modelled. Validation reports the first failing field in declaration order.
\<close>

datatype validation_error =
    Missing string
  | MinLength string nat
  | MaxLength string nat
  | ValueError string
  | NotGe string rat
  | NotLe string rat
  | NotInEnum string

text \<open>
  \<open>TaskSchema\<close>: the constraints \<open>min_length=10, max_length=500\<close> of the field apply to the
  string as supplied; the validator \<open>validate_description\<close> runs afterwards, rejects a string
  whose stripped length is below 10 and returns the stripped string.
\<close>

definition validate_description :: "string \<Rightarrow> validation_error + string" where
  "validate_description v =
     (if length (strip v) < 10 then Inl (ValueError ''Task description must be at least 10 characters'')
      else Inr (strip v))"

definition validate_task :: "raw_task \<Rightarrow> validation_error + TaskSchema" where
  "validate_task t =
     (case rt_description t of
        None \<Rightarrow> Inl (Missing ''description'')
      | Some d \<Rightarrow>
          if length d < 10 then Inl (MinLength ''description'' 10)
          else if 500 < length d then Inl (MaxLength ''description'' 500)
          else (case validate_description d of
             Inl e \<Rightarrow> Inl e
           | Inr d' \<Rightarrow>
              (case (case rt_type t of None \<Rightarrow> Some inspection | Some s \<Rightarrow> TaskType_of s) of
                 None \<Rightarrow> Inl (NotInEnum ''type'')
               | Some ty \<Rightarrow>
                   Inr \<lparr> task_number = rt_number t, task_description = d', task_type = ty,
                         task_requirements = rt_requirements t,
                         task_safety_notes = rt_safety_notes t,
                         task_estimated_time = rt_estimated_time t \<rparr>)))"

text \<open>Validating the items of a list stops at the first item that fails.\<close>

fun validate_each :: "('a \<Rightarrow> validation_error + 'b) \<Rightarrow> 'a list \<Rightarrow> validation_error + 'b list" where
  "validate_each f [] = Inr []"
| "validate_each f (x # xs) =
     (case f x of
        Inl e \<Rightarrow> Inl e
      | Inr y \<Rightarrow> (case validate_each f xs of Inl e \<Rightarrow> Inl e | Inr ys \<Rightarrow> Inr (y # ys)))"

text \<open>
  \<open>SystemSchema.validate_name\<close> strips the name (after the length constraints on the
  supplied string); \<open>validate_tasks\<close> rejects an empty list and sets
  \<open>task.number = i\<close> for \<open>i, task in enumerate(v, 1)\<close>.
\<close>

definition validate_name :: "string \<Rightarrow> string" where
  "validate_name v = strip v"

definition validate_tasks :: "TaskSchema list \<Rightarrow> validation_error + TaskSchema list" where
  "validate_tasks v =
     (if v = [] then Inl (ValueError ''System must have at least one task'')
      else Inr (map (\<lambda>(i, task). task\<lparr>task_number := Some (int i)\<rparr>) (enumerate 1 v)))"

definition validate_system :: "raw_system \<Rightarrow> validation_error + SystemSchema" where
  "validate_system s =
     (case rs_name s of
        None \<Rightarrow> Inl (Missing ''name'')
      | Some n \<Rightarrow>
          if length n < 3 then Inl (MinLength ''name'' 3)
          else if 200 < length n then Inl (MaxLength ''name'' 200)
          else (case rs_tasks s of
             None \<Rightarrow> Inl (Missing ''tasks'')
           | Some ts \<Rightarrow>
              (case validate_each validate_task ts of
                 Inl e \<Rightarrow> Inl e
               | Inr v \<Rightarrow>
                  (case validate_tasks v of
                     Inl e \<Rightarrow> Inl e
                   | Inr v' \<Rightarrow>
                       Inr \<lparr> sys_name = validate_name n, sys_description = rs_description s,
                             sys_category = rs_category s, sys_location = rs_location s,
                             sys_manufacturer = rs_manufacturer s, sys_model = rs_model s,
                             sys_tasks = v' \<rparr>))))"

text \<open>
  \<open>AIExtractionResult\<close>: \<open>confidence\<close> is required and constrained by \<open>ge=0.0, le=1.0\<close>;
  \<open>validate_systems\<close> rejects an empty list; the validators of \<open>total_systems\<close> and
  \<open>total_tasks\<close> replace the supplied value by the count taken from the validated systems.
\<close>

definition validate_systems :: "SystemSchema list \<Rightarrow> validation_error + SystemSchema list" where
  "validate_systems v =
     (if v = [] then Inl (ValueError ''At least one system must be extracted'') else Inr v)"

definition validate_total_systems :: "int \<Rightarrow> SystemSchema list \<Rightarrow> int" where
  "validate_total_systems v values_systems = int (length values_systems)"

definition validate_total_tasks_count :: "int \<Rightarrow> SystemSchema list \<Rightarrow> int" where
  "validate_total_tasks_count v values_systems =
     (\<Sum>system \<leftarrow> values_systems. int (length (sys_tasks system)))"

definition validate_total_tasks :: "int \<Rightarrow> SystemSchema list \<Rightarrow> int" where
  "validate_total_tasks v values_systems =
     (let actual_count = (\<Sum>system \<leftarrow> values_systems. int (length (sys_tasks system)))
      in if v \<noteq> actual_count then actual_count else v)"

definition validate_quality :: "string option \<Rightarrow> validation_error + QualityLevel option" where
  "validate_quality q =
     (case q of
        None \<Rightarrow> Inr None
      | Some s \<Rightarrow> (case QualityLevel_of s of
                     None \<Rightarrow> Inl (NotInEnum ''extraction_quality'')
                   | Some l \<Rightarrow> Inr (Some l)))"

definition validate_result :: "raw_result \<Rightarrow> validation_error + AIExtractionResult" where
  "validate_result c =
     (case rr_success c of
        None \<Rightarrow> Inl (Missing ''success'')
      | Some ok \<Rightarrow>
     (case rr_confidence c of
        None \<Rightarrow> Inl (Missing ''confidence'')
      | Some conf \<Rightarrow>
          if \<not> float_ge conf 0 then Inl (NotGe ''confidence'' 0)
          else if \<not> float_le conf 1 then Inl (NotLe ''confidence'' 1)
          else
     (case rr_processing_method c of
        None \<Rightarrow> Inl (Missing ''processing_method'')
      | Some pm \<Rightarrow>
     (case rr_systems c of
        None \<Rightarrow> Inl (Missing ''systems'')
      | Some ss \<Rightarrow>
     (case validate_each validate_system ss of
        Inl e \<Rightarrow> Inl e
      | Inr v \<Rightarrow>
     (case validate_systems v of
        Inl e \<Rightarrow> Inl e
      | Inr v' \<Rightarrow>
     (case rr_total_systems c of
        None \<Rightarrow> Inl (Missing ''total_systems'')
      | Some ts \<Rightarrow>
     (case rr_total_tasks c of
        None \<Rightarrow> Inl (Missing ''total_tasks'')
      | Some tt \<Rightarrow>
     (case validate_quality (rr_extraction_quality c) of
        Inl e \<Rightarrow> Inl e
      | Inr q \<Rightarrow>
          Inr \<lparr> success = ok, confidence = conf, processing_method = pm,
                metadata = rr_metadata c, systems = v',
                total_systems = validate_total_systems ts v',
                total_tasks = validate_total_tasks (validate_total_tasks_count tt v') v',
                processing_time = rr_processing_time c,
                extraction_quality = q, warnings = rr_warnings c \<rparr>)))))))))"

text \<open>
  \<open>validate_ai_response\<close> returns \<open>(is_valid, error_message, parsed_result)\<close>; the message is
  \<open>"Valid"\<close> or the schema validation error.
\<close>

datatype message = Valid | SchemaValidationError validation_error

definition validate_ai_response :: "raw_result \<Rightarrow> bool \<times> message \<times> AIExtractionResult option" where
  "validate_ai_response response_data =
     (case validate_result response_data of
        Inr result \<Rightarrow> (True, Valid, Some result)
      | Inl e \<Rightarrow> (False, SchemaValidationError e, None))"

text \<open>
  The field data of a validated result (\<open>result.dict()\<close>), as a candidate for another
  validation.
\<close>

definition task_dict :: "TaskSchema \<Rightarrow> raw_task" where
  "task_dict t =
     \<lparr> rt_number = task_number t, rt_description = Some (task_description t),
       rt_type = Some (TaskType_value (task_type t)),
       rt_requirements = task_requirements t, rt_safety_notes = task_safety_notes t,
       rt_estimated_time = task_estimated_time t \<rparr>"

definition system_dict :: "SystemSchema \<Rightarrow> raw_system" where
  "system_dict s =
     \<lparr> rs_name = Some (sys_name s), rs_description = sys_description s,
       rs_category = sys_category s, rs_location = sys_location s,
       rs_manufacturer = sys_manufacturer s, rs_model = sys_model s,
       rs_tasks = Some (map task_dict (sys_tasks s)) \<rparr>"

definition result_dict :: "AIExtractionResult \<Rightarrow> raw_result" where
  "result_dict r =
     \<lparr> rr_success = Some (success r), rr_confidence = Some (confidence r),
       rr_processing_method = Some (processing_method r), rr_metadata = metadata r,
       rr_systems = Some (map system_dict (systems r)),
       rr_total_systems = Some (total_systems r), rr_total_tasks = Some (total_tasks r),
       rr_processing_time = processing_time r,
       rr_extraction_quality = map_option QualityLevel_value (extraction_quality r),
       rr_warnings = warnings r \<rparr>"

section \<open>String operations used by the extraction code (utils.py)\<close>

text \<open>
  \<open>str.lower()\<close> on code points below 256: the letters A to Z and the accented capitals
  192 to 222 (without the multiplication sign 215) move up by 32.
\<close>

definition lower_char :: "char \<Rightarrow> char" where
  "lower_char c =
     (let n = (of_char c :: nat)
      in if (65 \<le> n \<and> n \<le> 90) \<or> (192 \<le> n \<and> n \<le> 222 \<and> n \<noteq> 215)
         then char_of (n + 32) else c)"

definition lower :: "string \<Rightarrow> string" where
  "lower s = map lower_char s"

definition startswith :: "string \<Rightarrow> string \<Rightarrow> bool" where
  "startswith s p \<longleftrightarrow> take (length p) s = p"

text \<open>\<open>sub in s\<close>: the substring test.\<close>

fun contains :: "string \<Rightarrow> string \<Rightarrow> bool" where
  "contains sub [] = (sub = [])"
| "contains sub (c # cs) = (startswith (c # cs) sub \<or> contains sub cs)"

text \<open>
  \<open>s.count(sub)\<close>: the number of non-overlapping occurrences, scanning from the left; for
  the empty substring Python answers \<open>len(s) + 1\<close>.
\<close>

function count :: "string \<Rightarrow> string \<Rightarrow> int" where
  "count s sub =
     (if sub = [] then int (length s) + 1
      else if s = [] then 0
      else if startswith s sub then 1 + count (drop (length sub) s) sub
      else count (tl s) sub)"
  by pat_completeness auto
termination
  by (relation "measure (\<lambda>(s, sub). length s)") auto

declare count.simps [simp del]

text \<open>\<open>os.path.basename\<close> on a POSIX path: what follows the last slash.\<close>

definition basename :: "string \<Rightarrow> string" where
  "basename p = rev (takeWhile (\<lambda>c. c \<noteq> CHR ''/'') (rev p))"

text \<open>\<open>d.get(k, default)\<close> on a dictionary kept as an association list in insertion order.\<close>

definition dict_get :: "('k \<times> 'v) list \<Rightarrow> 'k \<Rightarrow> 'v \<Rightarrow> 'v" where
  "dict_get d k dflt = (case map_of d k of Some v \<Rightarrow> v | None \<Rightarrow> dflt)"

text \<open>
  \<open>max(keys, key=f)\<close> on a non-empty sequence returns the first element whose key is
  maximal: the candidate is replaced only by a strictly larger one.
\<close>

fun py_max_from :: "('a \<Rightarrow> int) \<Rightarrow> 'a \<Rightarrow> 'a list \<Rightarrow> 'a" where
  "py_max_from key best [] = best"
| "py_max_from key best (x # xs) = py_max_from key (if key best < key x then x else best) xs"

section \<open>Exceptions\<close>

text \<open>Exceptions are values; \<open>str(e)\<close> is the message they carry.\<close>

datatype py_exception = FileDataError string | AIServiceError string | RequestException string


section \<open>Document-type classifier (utils.py, \_detect\_document\_type)\<close>

definition equipment_indicators :: "(string \<times> string list) list" where
  "equipment_indicators =
     [(''conveyor'', [''belt'', ''conveyor'', ''scraper'', ''pulley'', ''roller'']),
      (''electrical'', [''electrical'', ''motor'', ''electric'', ''control'', ''panel'', ''circuit'']),
      (''hydraulic'', [''hydraulic'', ''pump'', ''fluid'', ''pressure'', ''valve'', ''cylinder'']),
      (''mechanical'', [''mechanical'', ''bearing'', ''gear'', ''shaft'', ''coupling'', ''vibration'']),
      (''safety'', [''safety'', ''emergency'', ''guard'', ''lockout'', ''loto'', ''hazard'']),
      (''hvac'', [''hvac'', ''air'', ''ventilation'', ''cooling'', ''heating'', ''filter'']),
      (''general'', [''inspection'', ''maintenance'', ''checklist'', ''audit'', ''service''])]"

text \<open>
  The two scores of a keyword list: \<open>sum(1 for keyword in keywords if keyword in filename)\<close>
  counts the keywords present in the file name (each at most once), and
  \<open>sum(sample_text.count(keyword) for keyword in keywords)\<close> counts occurrences in the text.
\<close>

definition filename_score :: "string \<Rightarrow> string list \<Rightarrow> int" where
  "filename_score filename keywords =
     (\<Sum>keyword \<leftarrow> keywords. if contains keyword filename then 1 else 0)"

definition content_score :: "string \<Rightarrow> string list \<Rightarrow> int" where
  "content_score sample_text keywords = (\<Sum>keyword \<leftarrow> keywords. count sample_text keyword)"

text \<open>The dictionaries \<open>filename_scores\<close> and \<open>content_scores\<close> keep the positive scores only.\<close>

definition positive_scores :: "(string list \<Rightarrow> int) \<Rightarrow> (string \<times> int) list" where
  "positive_scores score =
     filter (\<lambda>(category, s). 0 < s)
       (map (\<lambda>(category, keywords). (category, score keywords)) equipment_indicators)"

text \<open>The sample: the first 1000 characters of each of the first three pages, lowered.\<close>

definition sample_text_of :: "string list \<Rightarrow> string" where
  "sample_text_of pages = lower (concat (map (take 1000) (take 3 pages)))"

text \<open>
  A document is the outcome of opening the file and reading its pages: the text of each
  page, or the exception raised. The categories with a score are collected in a Python
  \<open>set\<close>, whose iteration order is not fixed by the program; \<open>set_iteration\<close> is that order,
  applied to the members listed once each.
\<close>

definition detect_document_type ::
  "bool \<Rightarrow> (string list \<Rightarrow> string list) \<Rightarrow> py_exception + string list \<Rightarrow> string \<Rightarrow> string" where
  "detect_document_type pymupdf_available set_iteration doc pdf_path =
     (let filename = lower (basename pdf_path);
          filename_scores = positive_scores (filename_score filename);
          from_filename =
            (case map fst filename_scores of
               [] \<Rightarrow> ''general''
             | k # ks \<Rightarrow> py_max_from (\<lambda>k. dict_get filename_scores k 0) k ks)
      in if pymupdf_available then
           (case doc of
              Inl e \<Rightarrow> from_filename
            | Inr pages \<Rightarrow>
                (let sample_text = sample_text_of pages;
                     content_scores = positive_scores (content_score sample_text);
                     all_categories =
                       set_iteration (remdups (map fst filename_scores @ map fst content_scores));
                     total_scores =
                       map (\<lambda>category.
                              (category, dict_get filename_scores category 0 * 1
                                         + dict_get content_scores category 0 * 2))
                         all_categories
                 in case map fst total_scores of
                      [] \<Rightarrow> from_filename
                    | k # ks \<Rightarrow> py_max_from (\<lambda>k. dict_get total_scores k 0) k ks))
         else from_filename)"

text \<open>The keywords of a category and the categories in declared order.\<close>

definition keywords_of :: "string \<Rightarrow> string list" where
  "keywords_of category = dict_get equipment_indicators category []"

definition categories :: "string list" where
  "categories = map fst equipment_indicators"

definition total_score :: "string \<Rightarrow> string \<Rightarrow> string \<Rightarrow> int" where
  "total_score filename sample_text category =
     filename_score filename (keywords_of category) * 1
     + content_score sample_text (keywords_of category) * 2"

section \<open>Regular expressions (the module re)\<close>

text \<open>
  Matching is done by Python's module \<open>re\<close>, which is outside the program. A pattern of the
  source is identified by a name; the table gives the pattern each name stands for, with its
  flags (\<open>(?i)\<close> and \<open>(?m)\<close> are the flags \<open>re.IGNORECASE\<close> and \<open>re.MULTILINE\<close>).

  \<^item> \<open>CustomSystemPattern\<close>: \<^verbatim>\<open>Belt Scraper system (\d+)-Inspection Checklist\<close>, \<open>re.IGNORECASE\<close>
  \<^item> \<open>CustomTaskPattern 0\<close>: \<^verbatim>\<open>(\d+)\s+(Check\s+[^|\n\r]+)\<close>, \<open>re.IGNORECASE\<close>
  \<^item> \<open>CustomTaskPattern 1\<close>: \<^verbatim>\<open>(\d+)\s+([A-Z][^|\n\r]+)\<close>, \<open>re.IGNORECASE\<close>
  \<^item> \<open>TableSeparatorPattern\<close>: \<^verbatim>\<open>[|]+.*$\<close>
  \<^item> \<open>ConveyorPattern\<close>: \<^verbatim>\<open>Belt Conveyor Inspection\<close>, \<open>re.IGNORECASE\<close>
  \<^item> \<open>ChecklistSystemPattern\<close>: \<^verbatim>\<open>([A-Za-z\s]+system\s+\d+)(?:-Inspection\s+Checklist)?\<close>,
    \<open>re.IGNORECASE\<close>
  \<^item> \<open>ChecklistTaskPattern 0\<close>:
    \<^verbatim>\<open>(?i)(\d+)\s*[.\)]\s*(check|inspect|verify|test|examine)\s+([^.\n\r]+)\<close>
  \<^item> \<open>ChecklistTaskPattern 1\<close>: \<^verbatim>\<open>(?i)(\d+)\s*[.\)]\s*([^.\n\r]{10,80})\<close>
  \<^item> \<open>ChecklistTaskPattern 2\<close>: \<^verbatim>\<open>(?i)(check|inspect|verify|test|examine)\s+([^.\n\r]{5,80})\<close>
  \<^item> \<open>WhitespacePattern\<close>: \<^verbatim>\<open>\s+\<close>
  \<^item> \<open>BeltScraperPattern\<close>: \<^verbatim>\<open>Belt Scraper system (\d+)\s*-?\s*Inspection Checklist\<close>,
    \<open>re.IGNORECASE\<close>
  \<^item> \<open>GenericNamePattern 0\<close>: \<^verbatim>\<open>(?i)(equipment|system|component|unit|device)\s+(\w+(?:\s+\w+)*)\<close>
  \<^item> \<open>GenericNamePattern 1\<close>: \<^verbatim>\<open>(?i)(\w+(?:\s+\w+)*)\s+(equipment|system|component|unit|device)\<close>
  \<^item> \<open>GenericNamePattern 2\<close>: \<^verbatim>\<open>(?i)(inspection|checklist|maintenance)\s+(?:for\s+)?(\w+(?:\s+\w+)*)\<close>
  \<^item> \<open>GenericNamePattern 3\<close>: \<^verbatim>\<open>(?i)(\w+(?:\s+\w+)*)\s+(inspection|checklist|maintenance)\<close>
  \<^item> \<open>GenericTaskPattern 0\<close>: \<^verbatim>\<open>(?m)^\s*(\d+)[\.\)]\s*(.+)$\<close>
  \<^item> \<open>GenericTaskPattern 1\<close>: \<^verbatim>\<open>(?m)^\s*[\-\*]\s*(.+)$\<close>
  \<^item> \<open>GenericTaskPattern 2\<close> to \<open>5\<close>: \<^verbatim>\<open>(?i)check\s+(.+)\<close>, and the same with \<open>inspect\<close>,
    \<open>verify\<close> and \<open>test\<close>
  \<^item> \<open>ChecklistPattern 0\<close>: \<^verbatim>\<open>(?i)checklist|inspection|maintenance|safety|procedure\<close>
  \<^item> \<open>ChecklistPattern 1\<close>: \<^verbatim>\<open>(?i)equipment|system|component|device|machinery\<close>
  \<^item> \<open>ChecklistPattern 2\<close>: \<^verbatim>\<open>(?i)task|item|step|check|verify|test|inspect\<close>
  \<^item> \<open>NumberedItemPattern\<close>: \<^verbatim>\<open>^\d+[\.\)]\s*(.+)\<close>, used with \<open>re.match\<close>
\<close>

datatype pattern =
    CustomSystemPattern
  | CustomTaskPattern nat
  | TableSeparatorPattern
  | ConveyorPattern
  | ChecklistSystemPattern
  | ChecklistTaskPattern nat
  | WhitespacePattern
  | BeltScraperPattern
  | GenericNamePattern nat
  | GenericTaskPattern nat
  | ChecklistPattern nat
  | NumberedItemPattern

text \<open>
  A match object: its span and \<open>match.groups()\<close>. The functions of the module are read off
  \<open>re.finditer\<close>, which the model takes as a parameter \<open>re\<close>: \<open>re p text\<close> lists the
  non-overlapping matches of \<open>p\<close> in \<open>text\<close> from left to right. \<open>re.search\<close> succeeds
  when there is a match, \<open>re.findall\<close> returns one entry per match, and \<open>re.match\<close> is
  only used with a pattern anchored by \<open>^\<close>.
\<close>

record rmatch =
  m_start :: nat
  m_end :: nat
  m_groups :: "string list"

type_synonym re_module = "pattern \<Rightarrow> string \<Rightarrow> rmatch list"

definition group :: "rmatch \<Rightarrow> nat \<Rightarrow> string" where
  "group m i = (if 0 < i \<and> i \<le> length (m_groups m) then m_groups m ! (i - 1) else [])"

definition re_search :: "re_module \<Rightarrow> pattern \<Rightarrow> string \<Rightarrow> bool" where
  "re_search re p text \<longleftrightarrow> re p text \<noteq> []"

definition re_findall :: "re_module \<Rightarrow> pattern \<Rightarrow> string \<Rightarrow> rmatch list" where
  "re_findall re p text = re p text"

text \<open>\<open>re.sub(p, repl, s)\<close>: every match is replaced, the text between matches is kept.\<close>

fun sub_from :: "rmatch list \<Rightarrow> string \<Rightarrow> nat \<Rightarrow> string \<Rightarrow> string" where
  "sub_from [] repl pos s = drop pos s"
| "sub_from (m # ms) repl pos s =
     take (m_start m - pos) (drop pos s) @ repl @ sub_from ms repl (m_end m) s"

definition re_sub :: "re_module \<Rightarrow> pattern \<Rightarrow> string \<Rightarrow> string \<Rightarrow> string" where
  "re_sub re p repl s = sub_from (re p s) repl 0 s"

text \<open>
  \<open>int(s)\<close> is only applied to a group matched by \<open>\d+\<close>, where it cannot raise; the model
  reads the decimal digits.
\<close>

definition py_int :: "string \<Rightarrow> int" where
  "py_int s = foldl (\<lambda>a c. 10 * a + (int (of_char c) - 48)) 0 s"

text \<open>\<open>str(i)\<close> for a non-negative integer, as the f-strings print it.\<close>

function str_nat :: "nat \<Rightarrow> string" where
  "str_nat n = (if n < 10 then [char_of (48 + n)] else str_nat (n div 10) @ [char_of (48 + n mod 10)])"
  by pat_completeness auto
termination
  by (relation "measure (\<lambda>n. n)") auto

declare str_nat.simps [simp del]

text \<open>\<open>str.isdigit()\<close> below code point 256: the digits 0 to 9 and the superscripts 1, 2, 3.\<close>

definition str_isdigit :: "string \<Rightarrow> bool" where
  "str_isdigit s \<longleftrightarrow>
     s \<noteq> [] \<and> list_all (\<lambda>c. let n = (of_char c :: nat)
                              in (48 \<le> n \<and> n \<le> 57) \<or> n = 178 \<or> n = 179 \<or> n = 185) s"

text \<open>
  \<open>str.title()\<close>: a cased letter becomes upper case after an uncased character and lower
  case after a cased one. Cased are the letters A to Z, a to z and the accented letters
  192 to 254 without the signs 215 and 247 (the sharp s, code point 223, stays as it is).
\<close>

definition upper_char :: "char \<Rightarrow> char" where
  "upper_char c =
     (let n = (of_char c :: nat)
      in if (97 \<le> n \<and> n \<le> 122) \<or> (224 \<le> n \<and> n \<le> 254 \<and> n \<noteq> 247)
         then char_of (n - 32) else c)"

definition is_cased :: "char \<Rightarrow> bool" where
  "is_cased c \<longleftrightarrow>
     (let n = (of_char c :: nat)
      in (65 \<le> n \<and> n \<le> 90) \<or> (97 \<le> n \<and> n \<le> 122) \<or>
         (192 \<le> n \<and> n \<le> 254 \<and> n \<noteq> 215 \<and> n \<noteq> 247))"

fun title_from :: "bool \<Rightarrow> string \<Rightarrow> string" where
  "title_from previous_is_cased [] = []"
| "title_from previous_is_cased (c # cs) =
     (if is_cased c
      then (if previous_is_cased then lower_char c else upper_char c) # title_from True cs
      else c # title_from False cs)"

definition title :: "string \<Rightarrow> string" where
  "title s = title_from False s"

text \<open>\<open>s.find(sub, start)\<close>: the first index at or after \<open>start\<close>, \<open>None\<close> for \<open>-1\<close>.\<close>

fun find_in :: "string \<Rightarrow> string \<Rightarrow> nat \<Rightarrow> nat option" where
  "find_in [] sub pos = (if sub = [] then Some pos else None)"
| "find_in (c # cs) sub pos =
     (if startswith (c # cs) sub then Some pos else find_in cs sub (Suc pos))"

definition str_find :: "string \<Rightarrow> string \<Rightarrow> nat \<Rightarrow> nat option" where
  "str_find s sub start = (if length s < start then None else find_in (drop start s) sub start)"

text \<open>\<open>s.split('\n')\<close>.\<close>

fun split_lines :: "string \<Rightarrow> string list" where
  "split_lines [] = [[]]"
| "split_lines (c # cs) =
     (if c = CHR 0x0A then [] # split_lines cs
      else (case split_lines cs of [] \<Rightarrow> [[c]] | l # ls \<Rightarrow> (c # l) # ls))"

text \<open>\<open>' '.join(groups)\<close>.\<close>

fun join_space :: "string list \<Rightarrow> string" where
  "join_space [] = []"
| "join_space [x] = x"
| "join_space (x # y # ys) = x @ '' '' @ join_space (y # ys)"

text \<open>Keys of a dictionary in insertion order: each key once, at its first position.\<close>

fun first_occurrences :: "'a list \<Rightarrow> 'a list \<Rightarrow> 'a list" where
  "first_occurrences seen [] = []"
| "first_occurrences seen (x # xs) =
     (if x \<in> set seen then first_occurrences seen xs else x # first_occurrences (x # seen) xs)"

text \<open>The pattern lists of the strategies.\<close>

definition custom_task_patterns :: "pattern list" where
  "custom_task_patterns = [CustomTaskPattern 0, CustomTaskPattern 1]"

definition checklist_task_patterns :: "pattern list" where
  "checklist_task_patterns = [ChecklistTaskPattern 0, ChecklistTaskPattern 1, ChecklistTaskPattern 2]"

definition generic_name_patterns :: "pattern list" where
  "generic_name_patterns =
     [GenericNamePattern 0, GenericNamePattern 1, GenericNamePattern 2, GenericNamePattern 3]"

definition generic_task_patterns :: "pattern list" where
  "generic_task_patterns =
     [GenericTaskPattern 0, GenericTaskPattern 1, GenericTaskPattern 2, GenericTaskPattern 3,
      GenericTaskPattern 4, GenericTaskPattern 5]"

definition checklist_patterns :: "pattern list" where
  "checklist_patterns = [ChecklistPattern 0, ChecklistPattern 1, ChecklistPattern 2]"

section \<open>Heuristic extraction strategies (utils.py)\<close>

text \<open>
  The systems the strategies return are dictionaries with a name, sometimes a description,
  and a list of task dictionaries; the tasks converted from an AI result carry three more
  keys.
\<close>

record legacy_task =
  lt_number :: "int option"
  lt_description :: string
  lt_type :: "TaskType option"
  lt_requirements :: "string option"
  lt_safety_notes :: "string option"

record inspection =
  ins_name :: string
  ins_description :: "string option"
  ins_tasks :: "legacy_task list"

definition numbered_task :: "int \<Rightarrow> string \<Rightarrow> legacy_task" where
  \<comment> \<open>\<open>{"number": i, "description": desc}\<close>\<close>
  "numbered_task i desc =
     \<lparr> lt_number = Some i, lt_description = desc, lt_type = None,
       lt_requirements = None, lt_safety_notes = None \<rparr>"

subsection \<open>extract\_custom\_user\_systems\<close>

definition standard_tasks :: "string list" where
  "standard_tasks =
     [''Check worn or missing blades'',
      ''Check scraper frames and blades'',
      ''Check adjustment of belt cleaner tension'',
      ''Check primary scarper'',
      ''Check secondary scraper'',
      ''Check tertiary scraper'',
      ''Check plough scraper'']"

text \<open>
  The inner loop over the matches of one task pattern. It carries \<open>extracted_tasks\<close> and
  \<open>seen_tasks\<close>, and the \<open>break\<close> after the seventh task leaves this loop only.
\<close>

fun custom_task_loop ::
  "re_module \<Rightarrow> rmatch list \<Rightarrow> (int \<times> string) list \<times> string list
     \<Rightarrow> (int \<times> string) list \<times> string list" where
  "custom_task_loop re [] (extracted_tasks, seen_tasks) = (extracted_tasks, seen_tasks)"
| "custom_task_loop re (m # matches) (extracted_tasks, seen_tasks) =
     (let task_num = py_int (group m 1);
          task_desc = strip (group m 2);
          task_desc = strip (re_sub re TableSeparatorPattern [] task_desc)
      in if 10 < length task_desc \<and> task_num \<le> 10 \<and> lower task_desc \<notin> set seen_tasks
            \<and> contains ''check'' (lower task_desc)
         then (let extracted_tasks = extracted_tasks @ [(task_num, task_desc)];
                   seen_tasks = lower task_desc # seen_tasks
               in if 7 \<le> length extracted_tasks then (extracted_tasks, seen_tasks)
                  else custom_task_loop re matches (extracted_tasks, seen_tasks))
         else custom_task_loop re matches (extracted_tasks, seen_tasks))"

definition custom_final_tasks :: "re_module \<Rightarrow> string \<Rightarrow> legacy_task list" where
  "custom_final_tasks re text =
     (let extracted_tasks =
            fst (foldl (\<lambda>state p. custom_task_loop re (re p text) state) ([], [])
                   custom_task_patterns)
      in if extracted_tasks \<noteq> []
         then map (\<lambda>(i, (num, desc)). numbered_task (int i + 1) desc)
                (enumerate 0 (take 7 (sort_key fst extracted_tasks)))
         else map (\<lambda>(i, task_desc). numbered_task (int i) task_desc) (enumerate 1 standard_tasks))"

text \<open>The loop over the title matches, with \<open>inspections\<close> and \<open>processed_systems\<close>.\<close>

fun custom_system_loop ::
  "legacy_task list \<Rightarrow> rmatch list \<Rightarrow> inspection list \<times> string list
     \<Rightarrow> inspection list \<times> string list" where
  "custom_system_loop final_tasks [] (inspections, processed_systems) =
     (inspections, processed_systems)"
| "custom_system_loop final_tasks (system_match # matches_found) (inspections, processed_systems) =
     (let system_number = group system_match 1;
          system_title = ''Belt Scraper system '' @ system_number @ ''-Inspection Checklist''
      in if system_title \<in> set processed_systems
         then custom_system_loop final_tasks matches_found (inspections, processed_systems)
         else custom_system_loop final_tasks matches_found
                (inspections @ [\<lparr> ins_name = system_title, ins_description = None,
                                   ins_tasks = take 7 final_tasks \<rparr>],
                 system_title # processed_systems))"

definition extract_custom_user_systems :: "re_module \<Rightarrow> string \<Rightarrow> inspection list" where
  "extract_custom_user_systems re text =
     (let final_tasks = custom_final_tasks re text;
          matches_found = re CustomSystemPattern text;
          inspections = fst (custom_system_loop final_tasks matches_found ([], []))
      in if inspections = [] then
           (if re_search re ConveyorPattern text then
              (let conveyor_count = length (re_findall re ConveyorPattern text);
                   system_count = min (max 1 conveyor_count) 10
               in map (\<lambda>i. \<lparr> ins_name = ''Belt Scraper system '' @ str_nat i @ ''-Inspection Checklist'',
                              ins_description = None, ins_tasks = take 7 final_tasks \<rparr>)
                    [1..<system_count + 1])
            else inspections)
         else inspections)"

subsection \<open>extract\_belt\_scraper\_systems\<close>

fun belt_scraper_loop ::
  "rmatch list \<Rightarrow> inspection list \<times> string list \<Rightarrow> inspection list \<times> string list" where
  "belt_scraper_loop [] (inspections, processed_systems) = (inspections, processed_systems)"
| "belt_scraper_loop (system_match # matches_found) (inspections, processed_systems) =
     (let system_number = group system_match 1;
          system_title = ''Belt Scraper System '' @ system_number
      in if system_title \<in> set processed_systems
         then belt_scraper_loop matches_found (inspections, processed_systems)
         else belt_scraper_loop matches_found
                (inspections @ [\<lparr> ins_name = system_title, ins_description = None,
                                   ins_tasks = map (\<lambda>(i, task_desc). numbered_task (int i) task_desc)
                                                 (enumerate 1 standard_tasks) \<rparr>],
                 system_title # processed_systems))"

definition extract_belt_scraper_systems :: "re_module \<Rightarrow> string \<Rightarrow> inspection list" where
  "extract_belt_scraper_systems re text =
     fst (belt_scraper_loop (re BeltScraperPattern text) ([], []))"

subsection \<open>extract\_system\_checklist\_patterns\<close>

definition skip_words :: "string list" where
  "skip_words = [''status'', ''date'', ''remarks'', ''signature'']"

text \<open>The loop over the matches of one task pattern inside a section.\<close>

fun section_task_loop :: "re_module \<Rightarrow> rmatch list \<Rightarrow> legacy_task list \<Rightarrow> legacy_task list" where
  "section_task_loop re [] tasks = tasks"
| "section_task_loop re (m # matches) tasks =
     (let groups = m_groups m in
      if 2 \<le> length groups then
        (let (task_desc, task_num) =
               (if str_isdigit (hd groups) then (strip (last groups), py_int (hd groups))
                else (strip (join_space groups), int (length tasks) + 1));
             task_desc = re_sub re WhitespacePattern '' '' task_desc
         in if 10 < length task_desc \<and> length task_desc < 100
               \<and> \<not> list_ex (\<lambda>skip. contains skip (lower task_desc)) skip_words
            then section_task_loop re matches (tasks @ [numbered_task task_num task_desc])
            else section_task_loop re matches tasks)
      else section_task_loop re matches tasks)"

fun unique_descriptions :: "legacy_task list \<Rightarrow> string list \<Rightarrow> legacy_task list" where
  "unique_descriptions [] seen_descriptions = []"
| "unique_descriptions (task # tasks) seen_descriptions =
     (if lt_description task \<notin> set seen_descriptions
      then task # unique_descriptions tasks (lt_description task # seen_descriptions)
      else unique_descriptions tasks seen_descriptions)"

definition number_key :: "legacy_task \<Rightarrow> int" where
  "number_key task = (case lt_number task of Some n \<Rightarrow> n | None \<Rightarrow> 0)"

definition section_tasks :: "re_module \<Rightarrow> string \<Rightarrow> string list \<Rightarrow> nat \<Rightarrow> legacy_task list" where
  "section_tasks re text system_names i =
     (let system_name = system_names ! i in
      case str_find (lower text) (lower system_name) 0 of
        None \<Rightarrow> []
      | Some system_start \<Rightarrow>
          (let section_text =
                 (if i + 1 < length system_names
                  then (case str_find (lower text) (lower (system_names ! (i + 1))) (system_start + 1) of
                          None \<Rightarrow> drop system_start text
                        | Some next_system_start \<Rightarrow>
                            take (next_system_start - system_start) (drop system_start text))
                  else drop system_start text);
               tasks = foldl (\<lambda>tasks p. section_task_loop re (re p section_text) tasks) []
                         checklist_task_patterns;
               unique_tasks = unique_descriptions (sort_key number_key tasks) []
           in take 10 unique_tasks))"

definition extract_system_checklist_patterns :: "re_module \<Rightarrow> string \<Rightarrow> inspection list" where
  "extract_system_checklist_patterns re text =
     (let system_names =
            first_occurrences []
              (map (\<lambda>m. re_sub re WhitespacePattern '' '' (strip (group m 1)))
                 (re ChecklistSystemPattern text));
          found_systems =
            map (\<lambda>i. (system_names ! i, section_tasks re text system_names i))
              [0..<length system_names]
      in map (\<lambda>(system_name, tasks).
                \<lparr> ins_name = system_name @ ''-Inspection Checklist'',
                  ins_description = Some (''Inspection checklist for '' @ system_name),
                  ins_tasks = tasks \<rparr>)
           (filter (\<lambda>(system_name, tasks). tasks \<noteq> []) found_systems))"

subsection \<open>extract\_generic\_systems\<close>

definition generic_names :: "re_module \<Rightarrow> string \<Rightarrow> string list" where
  "generic_names re text =
     concat (map (\<lambda>p. map (\<lambda>m. title (strip (group m 1 @ '' '' @ group m 2)))
                         (filter (\<lambda>m. 2 \<le> length (m_groups m) \<and>
                                       (let name = strip (group m 1 @ '' '' @ group m 2)
                                        in 5 < length name \<and> length name < 100))
                            (re p text)))
               generic_name_patterns)"

text \<open>
  The inner loop over the matches of one task pattern, with \<open>tasks\<close> and \<open>task_number\<close>
  (here \<open>task_no\<close>); the \<open>break\<close> once it exceeds 20 leaves this loop only.
\<close>

fun generic_task_loop :: "rmatch list \<Rightarrow> legacy_task list \<times> int \<Rightarrow> legacy_task list \<times> int" where
  "generic_task_loop [] (tasks, task_no) = (tasks, task_no)"
| "generic_task_loop (m # matches) (tasks, task_no) =
     (if m_groups m \<noteq> [] then
        (let task_desc = strip (last (m_groups m))
         in if 10 < length task_desc \<and> length task_desc < 200
            then (let tasks = tasks @ [numbered_task task_no task_desc];
                      task_no = task_no + 1
                  in if 20 < task_no then (tasks, task_no)
                     else generic_task_loop matches (tasks, task_no))
            else generic_task_loop matches (tasks, task_no))
      else generic_task_loop matches (tasks, task_no))"

text \<open>
  \<open>system_names\<close> is a Python \<open>set\<close>; \<open>list(system_names)[:5]\<close> takes the first five names in
  the set's iteration order \<open>set_iteration\<close>.
\<close>

definition extract_generic_systems ::
  "re_module \<Rightarrow> (string list \<Rightarrow> string list) \<Rightarrow> string \<Rightarrow> inspection list" where
  "extract_generic_systems re set_iteration text =
     (let system_names = set_iteration (remdups (generic_names re text));
          tasks = fst (foldl (\<lambda>state p. generic_task_loop (re p text) state) ([], 1)
                         generic_task_patterns);
          system_tasks = take (min (length tasks) 10) tasks
      in map (\<lambda>system_name. \<lparr> ins_name = system_name, ins_description = None,
                               ins_tasks = system_tasks \<rparr>)
           (filter (\<lambda>system_name. system_tasks \<noteq> []) (first_occurrences [] (take 5 system_names))))"

subsection \<open>extract\_checklist\_items\<close>

record checklist_state =
  cs_inspections :: "inspection list"
  cs_current_system :: "string option"
  cs_current_tasks :: "legacy_task list"
  cs_task_number :: int

definition flush_system :: "checklist_state \<Rightarrow> inspection list" where
  "flush_system st =
     (case cs_current_system st of
        Some name \<Rightarrow>
          if name \<noteq> [] \<and> cs_current_tasks st \<noteq> []
          then cs_inspections st @ [\<lparr> ins_name = name, ins_description = None,
                                       ins_tasks = cs_current_tasks st \<rparr>]
          else cs_inspections st
      | None \<Rightarrow> cs_inspections st)"

definition checklist_line :: "re_module \<Rightarrow> checklist_state \<Rightarrow> string \<Rightarrow> checklist_state" where
  "checklist_line re st raw_line =
     (let line = strip raw_line in
      if line = [] then st
      else if list_ex (\<lambda>p. re_search re p line) (take 2 checklist_patterns) then
        (if 10 < length line \<and> length line < 100
         then \<lparr> cs_inspections = flush_system st, cs_current_system = Some (title line),
                cs_current_tasks = [], cs_task_number = 1 \<rparr>
         else st)
      else if list_ex (\<lambda>p. re_search re p line) (drop 2 checklist_patterns) then
        (if 15 < length line \<and> length line < 200
         then st \<lparr> cs_current_tasks := cs_current_tasks st @ [numbered_task (cs_task_number st) line],
                   cs_task_number := cs_task_number st + 1 \<rparr>
         else st)
      else (case re NumberedItemPattern line of
              [] \<Rightarrow> st
            | m # ms \<Rightarrow>
                if 10 < length (group m 1)
                then st \<lparr> cs_current_tasks := cs_current_tasks st @ [numbered_task (cs_task_number st) (group m 1)],
                          cs_task_number := cs_task_number st + 1 \<rparr>
                else st))"

definition extract_checklist_items :: "re_module \<Rightarrow> string \<Rightarrow> inspection list" where
  "extract_checklist_items re text =
     flush_system
       (foldl (checklist_line re)
          \<lparr> cs_inspections = [], cs_current_system = None, cs_current_tasks = [], cs_task_number = 1 \<rparr>
          (split_lines text))"

subsection \<open>create\_intelligent\_fallback\<close>

definition fallback_system :: "string \<Rightarrow> string list \<Rightarrow> inspection" where
  "fallback_system system_name descriptions =
     \<lparr> ins_name = system_name, ins_description = None,
       ins_tasks = map (\<lambda>(i, d). numbered_task (int i) d) (enumerate 1 descriptions) \<rparr>"

definition create_intelligent_fallback :: "string \<Rightarrow> inspection list" where
  "create_intelligent_fallback text =
     (let text_lower = lower text in
      if contains ''belt'' text_lower \<or> contains ''conveyor'' text_lower then
        [fallback_system ''Belt Conveyor Inspection''
           [''Check belt alignment and tracking'',
            ''Inspect belt condition for wear and damage'',
            ''Check belt tension and adjustment'',
            ''Inspect pulleys and rollers'',
            ''Check belt cleaners and scrapers'']]
      else if contains ''electrical'' text_lower \<or> contains ''motor'' text_lower then
        [fallback_system ''Electrical Equipment Inspection''
           [''Check electrical connections and terminals'',
            ''Inspect motor condition and operation'',
            ''Test electrical safety systems'',
            ''Check control panel and switches'',
            ''Verify grounding and insulation'']]
      else if contains ''pump'' text_lower \<or> contains ''hydraulic'' text_lower then
        [fallback_system ''Pump and Hydraulic System Inspection''
           [''Check pump operation and performance'',
            ''Inspect hydraulic lines and connections'',
            ''Check fluid levels and quality'',
            ''Test pressure relief valves'',
            ''Inspect seals and gaskets for leaks'']]
      else
        [fallback_system ''Equipment Inspection Checklist''
           [''Visual inspection of equipment condition'',
            ''Check for any visible damage or wear'',
            ''Verify proper operation and functionality'',
            ''Check safety features and protective guards'',
            ''Document any issues or recommendations'']])"

section \<open>AI orchestration (ai\_services.py)\<close>

text \<open>
  What lies outside the program is collected in an environment: the two availability flags
  set at import time, the matcher of the module \<open>re\<close>, the iteration order of Python sets,
  the PDF library (opening a path and reading the text of its pages gives the page texts or
  raises), the configured AI services and, for the two remote services, the decoded JSON
  answer or the exception of the request, and the time the AI call took.
\<close>

record environment =
  PYMUPDF_AVAILABLE :: bool
  AI_PROCESSING_AVAILABLE :: bool
  re_finditer :: re_module
  set_iteration :: "string list \<Rightarrow> string list"
  open_pdf :: "string \<Rightarrow> py_exception + string list"
  openai_available :: bool
  claude_available :: bool
  google_available :: bool
  openai_response :: "py_exception + raw_result"
  claude_response :: "py_exception + raw_result"
  elapsed_time :: pyfloat










section \<open>The extraction pipeline (utils.py)\<close>


definition read_all_text :: "environment \<Rightarrow> string \<Rightarrow> py_exception + string" where
  "read_all_text env pdf_path =
     (case open_pdf env pdf_path of
        Inl e \<Rightarrow> Inl e
      | Inr pages \<Rightarrow> Inr (concat (map (\<lambda>page_text. page_text @ [CHR 0x0A]) pages)))"

text \<open>
  The chain of heuristic strategies (lines 183 to 229). Besides the systems it returns, the
  model records which strategies were called, in call order.
\<close>

datatype strategy =
  Custom | BeltScraper | SystemChecklist | Generic | ChecklistItems | IntelligentFallback

definition heuristic_chain :: "environment \<Rightarrow> string \<Rightarrow> strategy list \<times> inspection list" where
  "heuristic_chain env all_text =
     (let re = re_finditer env;
          custom_systems = extract_custom_user_systems re all_text;
          (calls, inspections) = ([Custom], custom_systems);
          (calls, inspections) =
            (if inspections = []
             then (calls @ [BeltScraper], inspections @ extract_belt_scraper_systems re all_text)
             else (calls, inspections));
          (calls, inspections) =
            (if inspections = []
             then (calls @ [SystemChecklist],
                   inspections @ extract_system_checklist_patterns re all_text)
             else (calls, inspections));
          (calls, inspections) =
            (if inspections = [] \<and> PYMUPDF_AVAILABLE env
             then (let generic_systems = extract_generic_systems re (set_iteration env) all_text;
                       checklist_systems = extract_checklist_items re all_text
                   in (calls @ [Generic, ChecklistItems],
                       inspections @ generic_systems @ checklist_systems))
             else (calls, inspections));
          (calls, inspections) =
            (if inspections = []
             then (calls @ [IntelligentFallback], inspections @ create_intelligent_fallback all_text)
             else (calls, inspections))
      in (calls, inspections))"



section \<open>Processing a document record (utils.py, process\_inspection\_pdf)\<close>






section \<open>Auxiliary predicates\<close>

text \<open>Every system of a list, or of a validated result, has at least one task.\<close>

definition has_tasks :: "inspection list \<Rightarrow> bool" where
  "has_tasks inspections \<longleftrightarrow> list_all (\<lambda>system. ins_tasks system \<noteq> []) inspections"

definition result_has_tasks :: "AIExtractionResult \<Rightarrow> bool" where
  "result_has_tasks r \<longleftrightarrow> systems r \<noteq> [] \<and> list_all (\<lambda>s. sys_tasks s \<noteq> []) (systems r)"

section \<open>Example candidates\<close>

definition example_task1 :: raw_task where
  "example_task1 = \<lparr> rt_number = Some 7, rt_description = Some ''  Check worn or missing blades '',
     rt_type = None, rt_requirements = None, rt_safety_notes = None, rt_estimated_time = None \<rparr>"

definition example_task2 :: raw_task where
  "example_task2 = \<lparr> rt_number = Some 3, rt_description = Some ''Check scraper frames and blades'',
     rt_type = Some ''maintenance'', rt_requirements = None, rt_safety_notes = None,
     rt_estimated_time = Some 15 \<rparr>"

definition example_system :: raw_system where
  "example_system = \<lparr> rs_name = Some '' Belt Scraper system 1 '', rs_description = None,
     rs_category = None, rs_location = None, rs_manufacturer = None, rs_model = None,
     rs_tasks = Some [example_task1, example_task2] \<rparr>"

definition example_candidate :: raw_result where
  "example_candidate = \<lparr> rr_success = Some True, rr_confidence = Some (Finite (19 / 20)),
     rr_processing_method = Some ''gpt-4-vision'', rr_metadata = None,
     rr_systems = Some [example_system], rr_total_systems = Some 99, rr_total_tasks = Some 0,
     rr_processing_time = None, rr_extraction_quality = Some ''good'', rr_warnings = None \<rparr>"

definition example_result :: AIExtractionResult where
  "example_result = \<lparr> success = True, confidence = Finite (19 / 20),
     processing_method = ''gpt-4-vision'', metadata = None,
     systems = [\<lparr> sys_name = ''Belt Scraper system 1'', sys_description = None,
        sys_category = None, sys_location = None, sys_manufacturer = None, sys_model = None,
        sys_tasks = [
          \<lparr> task_number = Some 1, task_description = ''Check worn or missing blades'',
            task_type = inspection, task_requirements = None, task_safety_notes = None,
            task_estimated_time = None \<rparr>,
          \<lparr> task_number = Some 2, task_description = ''Check scraper frames and blades'',
            task_type = maintenance, task_requirements = None, task_safety_notes = None,
            task_estimated_time = Some 15 \<rparr>] \<rparr>],
     total_systems = 1, total_tasks = 2, processing_time = None,
     extraction_quality = Some good, warnings = None \<rparr>"

definition overconfident_candidate :: raw_result where
  "overconfident_candidate = example_candidate \<lparr> rr_confidence := Some (Finite (17 / 10)) \<rparr>"

definition padded_description :: string where
  "padded_description = replicate 500 (CHR ''x'') @ '' ''"

definition padded_task :: raw_task where
  "padded_task = \<lparr> rt_number = Some 1, rt_description = Some padded_description,
     rt_type = None, rt_requirements = None, rt_safety_notes = None, rt_estimated_time = None \<rparr>"

definition short_name_candidate :: raw_result where
  "short_name_candidate = example_candidate
     \<lparr> rr_systems := Some [example_system \<lparr> rs_name := Some ''  a  '' \<rparr>],
       rr_total_systems := Some 1, rr_total_tasks := Some 2 \<rparr>"

definition short_name_result :: AIExtractionResult where
  "short_name_result = example_result
     \<lparr> systems := map (\<lambda>s. s \<lparr> sys_name := ''a'' \<rparr>) (systems example_result) \<rparr>"

section \<open>Example documents\<close>

text \<open>
  For an example text the matches that \<open>re.finditer\<close> yields are recorded in a table; a
  pattern and text without an entry have no match.
\<close>

definition recorded :: "(pattern \<times> string \<times> rmatch list) list \<Rightarrow> re_module" where
  "recorded table p text =
     (case List.find (\<lambda>(q, t, ms). q = p \<and> t = text) table of
        Some (q, t, ms) \<Rightarrow> ms
      | None \<Rightarrow> [])"

text \<open>
  A machine without AI services on which the PDF library is installed: sets iterate in
  insertion order, and every path opens to the given pages.
\<close>

definition local_env :: "re_module \<Rightarrow> string list \<Rightarrow> environment" where
  "local_env re pages =
     \<lparr> PYMUPDF_AVAILABLE = True, AI_PROCESSING_AVAILABLE = False, re_finditer = re,
       set_iteration = (\<lambda>xs. xs), open_pdf = (\<lambda>path. Inr pages),
       openai_available = False, claude_available = False, google_available = False,
       openai_response = Inl (RequestException ''no network''),
       claude_response = Inl (RequestException ''no network''),
       elapsed_time = Finite 0 \<rparr>"



text \<open>A one-page document with an equipment line and one numbered task line.\<close>

definition oil_page :: string where
  "oil_page = ''Equipment list here\<newline>1. Check the oil level daily''"

definition oil_matches :: re_module where
  "oil_matches = recorded
     [(GenericNamePattern 0, oil_page @ ''\<newline>'',
         [\<lparr> m_start = 0, m_end = 21, m_groups = [''Equipment'', ''list here\<newline>1''] \<rparr>]),
      (GenericTaskPattern 0, oil_page @ ''\<newline>'',
         [\<lparr> m_start = 20, m_end = 48, m_groups = [''1'', ''Check the oil level daily''] \<rparr>]),
      (GenericTaskPattern 2, oil_page @ ''\<newline>'',
         [\<lparr> m_start = 23, m_end = 48, m_groups = [''the oil level daily''] \<rparr>]),
      (ChecklistPattern 1, ''Equipment list here'',
         [\<lparr> m_start = 0, m_end = 9, m_groups = [] \<rparr>]),
      (ChecklistPattern 2, ''1. Check the oil level daily'',
         [\<lparr> m_start = 3, m_end = 8, m_groups = [] \<rparr>]),
      (NumberedItemPattern, ''1. Check the oil level daily'',
         [\<lparr> m_start = 0, m_end = 28, m_groups = [''Check the oil level daily''] \<rparr>])]"

definition oil_generic_system :: inspection where
  "oil_generic_system =
     \<lparr> ins_name = ''Equipment List Here\<newline>1'', ins_description = None,
       ins_tasks = [numbered_task 1 ''Check the oil level daily'',
                    numbered_task 2 ''the oil level daily''] \<rparr>"

definition oil_checklist_system :: inspection where
  "oil_checklist_system =
     \<lparr> ins_name = ''Equipment List Here'', ins_description = None,
       ins_tasks = [numbered_task 1 ''1. Check the oil level daily''] \<rparr>"

text \<open>A two-page document, each page holding the heading of the conveyor inspection.\<close>

definition conveyor_page :: string where
  "conveyor_page = ''Belt Conveyor Inspection''"

definition conveyor_text :: string where
  "conveyor_text = conveyor_page @ ''\<newline>'' @ conveyor_page @ ''\<newline>''"

definition conveyor_matches :: re_module where
  "conveyor_matches = recorded
     [(ConveyorPattern, conveyor_text,
         [\<lparr> m_start = 0, m_end = 24, m_groups = [] \<rparr>,
          \<lparr> m_start = 25, m_end = 49, m_groups = [] \<rparr>])]"

definition standard_task_list :: "legacy_task list" where
  "standard_task_list =
     [numbered_task 1 ''Check worn or missing blades'',
      numbered_task 2 ''Check scraper frames and blades'',
      numbered_task 3 ''Check adjustment of belt cleaner tension'',
      numbered_task 4 ''Check primary scarper'',
      numbered_task 5 ''Check secondary scraper'',
      numbered_task 6 ''Check tertiary scraper'',
      numbered_task 7 ''Check plough scraper'']"

definition conveyor_systems :: "inspection list" where
  "conveyor_systems =
     [\<lparr> ins_name = ''Belt Scraper system 1-Inspection Checklist'', ins_description = None,
        ins_tasks = standard_task_list \<rparr>,
      \<lparr> ins_name = ''Belt Scraper system 2-Inspection Checklist'', ins_description = None,
        ins_tasks = standard_task_list \<rparr>]"

section \<open>Properties of the validator\<close>

lemma validate_each_length:
  "validate_each f xs = Inr ys \<Longrightarrow> length ys = length xs"
  by (induction xs arbitrary: ys) (auto split: sum.splits)

lemma strip_length_le: "length (strip s) \<le> length s"
  unfolding strip_def
  by (metis length_dropWhile_le length_rev le_trans)

lemma dropWhile_id_iff: "xs = [] \<or> \<not> P (hd xs) \<Longrightarrow> dropWhile P xs = xs"
  by (cases xs) auto

lemma strip_idem: "strip (strip s) = strip s"
proof -
  define t where "t = dropWhile py_isspace s"
  define u where "u = dropWhile py_isspace (rev t)"
  have su: "strip s = rev u" by (simp add: strip_def t_def u_def)
  have t_hd: "t = [] \<or> \<not> py_isspace (hd t)"
    unfolding t_def by (metis hd_dropWhile)
  have u_hd: "u = [] \<or> \<not> py_isspace (hd u)"
    unfolding u_def by (metis hd_dropWhile)
  have "rev u = [] \<or> \<not> py_isspace (hd (rev u))"
  proof (cases "u = []")
    case True then show ?thesis by simp
  next
    case False
    then have "rev t \<noteq> []" unfolding u_def by auto
    then have tne: "t \<noteq> []" by simp
    have "\<exists>ys. rev t = ys @ u" unfolding u_def
      by (metis takeWhile_dropWhile_id)
    then obtain ys where "rev t = ys @ u" by blast
    then have "last (rev t) = last u" using False by simp
    then have "hd t = last u" using tne by (simp add: last_rev)
    then have "hd (rev u) = hd t" using False by (simp add: hd_rev)
    then show ?thesis using t_hd tne by simp
  qed
  then have a: "dropWhile py_isspace (rev u) = rev u" by (rule dropWhile_id_iff)
  have b: "dropWhile py_isspace u = u" using u_hd by (rule dropWhile_id_iff)
  show ?thesis unfolding su unfolding strip_def a by (simp add: b)
qed

lemma TaskType_roundtrip: "TaskType_of (TaskType_value t) = Some t"
  by (cases t) (simp_all add: TaskType_of_def TaskType_value_def)

lemma QualityLevel_roundtrip: "QualityLevel_of (QualityLevel_value q) = Some q"
  by (cases q) (simp_all add: QualityLevel_of_def QualityLevel_value_def)

lemma validate_each_all2:
  "validate_each f xs = Inr ys \<Longrightarrow> list_all2 (\<lambda>x y. f x = Inr y) xs ys"
  by (induction xs arbitrary: ys) (auto split: sum.splits)

lemma validate_each_all2_iff:
  "validate_each f xs = Inr ys \<longleftrightarrow> list_all2 (\<lambda>x y. f x = Inr y) xs ys"
proof
  show "validate_each f xs = Inr ys \<Longrightarrow> list_all2 (\<lambda>x y. f x = Inr y) xs ys"
    by (rule validate_each_all2)
  show "list_all2 (\<lambda>x y. f x = Inr y) xs ys \<Longrightarrow> validate_each f xs = Inr ys"
    by (induction xs ys rule: list_all2_induct) auto
qed

lemma renumber_numbers:
  "map task_number (map (\<lambda>(i, task). task\<lparr>task_number := Some (int i)\<rparr>) (enumerate n v))
     = map (\<lambda>i. Some (int i)) [n..<n + length v]"
proof (induction v arbitrary: n)
  case Nil
  then show ?case by simp
next
  case (Cons a v)
  have "[n..<n + length (a # v)] = n # [Suc n..<Suc n + length v]"
    by (subst upt_rec) simp
  then show ?case using Cons.IH [of "Suc n"] by simp
qed

lemma validate_tasks_numbers:
  assumes "validate_tasks v = Inr v'"
  shows "map task_number v' = map (\<lambda>i. Some (int i)) [1..<Suc (length v')]"
proof -
  from assms have v': "v' = map (\<lambda>(i, task). task\<lparr>task_number := Some (int i)\<rparr>) (enumerate 1 v)"
    by (simp add: validate_tasks_def split: if_splits)
  then have len: "length v' = length v" by simp
  have "[1..<Suc (length v')] = [1..<1 + length v]" using len by simp
  then show ?thesis unfolding v' using renumber_numbers [of 1 v] by metis
qed

lemma validate_system_Inr:
  "validate_system s = Inr s' \<Longrightarrow>
     \<exists>n ts v v'. rs_name s = Some n \<and> 3 \<le> length n \<and> length n \<le> 200 \<and> rs_tasks s = Some ts \<and>
        validate_each validate_task ts = Inr v \<and> validate_tasks v = Inr v' \<and>
        s' = \<lparr> sys_name = validate_name n, sys_description = rs_description s,
                             sys_category = rs_category s, sys_location = rs_location s,
                             sys_manufacturer = rs_manufacturer s, sys_model = rs_model s,
                             sys_tasks = v' \<rparr>"
  by (simp add: validate_system_def split: option.splits if_splits sum.splits)

lemma validate_result_Inr:
  "validate_result c = Inr r \<Longrightarrow>
     \<exists>ok conf pm ss v ts tt q. rr_success c = Some ok \<and> rr_confidence c = Some conf \<and>
       float_ge conf 0 \<and> float_le conf 1 \<and> rr_processing_method c = Some pm \<and>
       rr_systems c = Some ss \<and> validate_each validate_system ss = Inr v \<and> v \<noteq> [] \<and>
       rr_total_systems c = Some ts \<and> rr_total_tasks c = Some tt \<and>
       validate_quality (rr_extraction_quality c) = Inr q \<and>
       r = \<lparr> success = ok, confidence = conf, processing_method = pm,
                metadata = rr_metadata c, systems = v,
                total_systems = int (length v),
                total_tasks = (\<Sum>system \<leftarrow> v. int (length (sys_tasks system))),
                processing_time = rr_processing_time c,
                extraction_quality = q, warnings = rr_warnings c \<rparr>"
  by (simp add: validate_result_def validate_systems_def validate_total_systems_def
    validate_total_tasks_def validate_total_tasks_count_def Let_def split: option.splits if_splits sum.splits)

lemma validate_task_Inr:
  "validate_task t = Inr t' \<Longrightarrow>
     \<exists>d ty. rt_description t = Some d \<and> 10 \<le> length d \<and> length d \<le> 500 \<and> 10 \<le> length (strip d) \<and>
        (case rt_type t of None \<Rightarrow> Some inspection | Some s \<Rightarrow> TaskType_of s) = Some ty \<and>
        t' = \<lparr> task_number = rt_number t, task_description = strip d, task_type = ty,
                         task_requirements = rt_requirements t,
                         task_safety_notes = rt_safety_notes t,
                         task_estimated_time = rt_estimated_time t \<rparr>"
  by (simp add: validate_task_def validate_description_def split: option.splits if_splits sum.splits)

lemma validate_task_dict:
  assumes "validate_task t = Inr t'"
  shows "validate_task (task_dict (t'\<lparr>task_number := k\<rparr>)) = Inr (t'\<lparr>task_number := k\<rparr>)"
proof -
  from validate_task_Inr [OF assms] obtain d ty where
    d: "10 \<le> length (strip d)" "length d \<le> 500"
    and t': "t' = \<lparr> task_number = rt_number t, task_description = strip d, task_type = ty,
                         task_requirements = rt_requirements t,
                         task_safety_notes = rt_safety_notes t,
                         task_estimated_time = rt_estimated_time t \<rparr>"
    by blast
  have "length (strip d) \<le> 500" using d(2) strip_length_le [of d] by linarith
  then show ?thesis using d(1)
    by (simp add: t' task_dict_def validate_task_def validate_description_def strip_idem
        TaskType_roundtrip)
qed

lemma renumber_idem:
  "map (\<lambda>(i, task). task\<lparr>task_number := Some (int i)\<rparr>)
     (enumerate n (map (\<lambda>(i, task). task\<lparr>task_number := Some (int i)\<rparr>) (enumerate n v)))
   = map (\<lambda>(i, task). task\<lparr>task_number := Some (int i)\<rparr>) (enumerate n v)"
  by (induction v arbitrary: n) simp_all

lemma validate_each_renumbered:
  "validate_each validate_task ts = Inr v \<Longrightarrow>
   validate_each validate_task
     (map task_dict (map (\<lambda>(i, task). task\<lparr>task_number := Some (int i)\<rparr>) (enumerate n v)))
   = Inr (map (\<lambda>(i, task). task\<lparr>task_number := Some (int i)\<rparr>) (enumerate n v))"
proof (induction ts arbitrary: v n)
  case Nil
  then show ?case by simp
next
  case (Cons a ts)
  from Cons.prems obtain y ys where a: "validate_task a = Inr y"
    and ys: "validate_each validate_task ts = Inr ys" and v: "v = y # ys"
    by (auto split: sum.splits)
  show ?case
    by (simp add: v validate_task_dict [OF a] Cons.IH [OF ys] del: map_map)
qed

lemma validate_system_dict:
  assumes "validate_system s = Inr s'" and "3 \<le> length (sys_name s')"
  shows "validate_system (system_dict s') = Inr s'"
proof -
  from validate_system_Inr [OF assms(1)] obtain n ts v v' where
    n: "length n \<le> 200" and ts: "validate_each validate_task ts = Inr v"
    and v': "validate_tasks v = Inr v'"
    and s': "s' = \<lparr> sys_name = validate_name n, sys_description = rs_description s,
                             sys_category = rs_category s, sys_location = rs_location s,
                             sys_manufacturer = rs_manufacturer s, sys_model = rs_model s,
                             sys_tasks = v' \<rparr>"
    by blast
  let ?ren = "map (\<lambda>(i, task). task\<lparr>task_number := Some (int i)\<rparr>)"
  from v' have vne: "v \<noteq> []" and v'_eq: "v' = ?ren (enumerate 1 v)"
    by (simp_all add: validate_tasks_def split: if_splits)
  have each: "validate_each validate_task (map task_dict v') = Inr v'"
    unfolding v'_eq by (rule validate_each_renumbered [OF ts])
  have ene: "enumerate 1 v \<noteq> []" using vne by (cases v) simp_all
  have again: "validate_tasks v' = Inr v'"
    using ene renumber_idem [of 1 v] by (simp add: validate_tasks_def v'_eq)
  have name: "sys_name s' = strip n" by (simp add: s' validate_name_def)
  have "length (strip n) \<le> 200" using n strip_length_le [of n] by linarith
  then show ?thesis using assms(2) each again
    by (simp add: name system_dict_def validate_system_def validate_name_def strip_idem s')
qed

lemma validate_each_system_dict:
  "validate_each validate_system ss = Inr v \<Longrightarrow> \<forall>s \<in> set v. 3 \<le> length (sys_name s) \<Longrightarrow>
   validate_each validate_system (map system_dict v) = Inr v"
proof (induction ss arbitrary: v)
  case Nil
  then show ?case by simp
next
  case (Cons a ss)
  from Cons.prems(1) obtain y ys where a: "validate_system a = Inr y"
    and ys: "validate_each validate_system ss = Inr ys" and v: "v = y # ys"
    by (auto split: sum.splits)
  from Cons.prems(2) have y3: "3 \<le> length (sys_name y)" and rest: "\<forall>s \<in> set ys. 3 \<le> length (sys_name s)"
    by (simp_all add: v)
  show ?case
    by (simp add: v validate_system_dict [OF a y3] Cons.IH [OF ys rest] del: map_map)
qed

text \<open>
  Apart from such names re-validation is the identity: a validated result all of whose
  system names keep at least 3 characters is accepted again, unchanged.
\<close>

lemma revalidate_idem:
  assumes "validate_result c = Inr r" and "\<forall>s \<in> set (systems r). 3 \<le> length (sys_name s)"
  shows "validate_result (result_dict r) = Inr r"
proof -
  from validate_result_Inr [OF assms(1)] obtain ok conf pm ss v ts tt q where
    conf: "float_ge conf 0" "float_le conf 1"
    and v: "validate_each validate_system ss = Inr v" "v \<noteq> []"
    and q: "validate_quality (rr_extraction_quality c) = Inr q"
    and r: "r = \<lparr> success = ok, confidence = conf, processing_method = pm,
                metadata = rr_metadata c, systems = v,
                total_systems = int (length v),
                total_tasks = (\<Sum>system \<leftarrow> v. int (length (sys_tasks system))),
                processing_time = rr_processing_time c,
                extraction_quality = q, warnings = rr_warnings c \<rparr>"
    by blast
  have sys: "systems r = v" by (simp add: r)
  have each: "validate_each validate_system (map system_dict v) = Inr v"
    using validate_each_system_dict [OF v(1)] assms(2) sys by simp
  have qual: "validate_quality (map_option QualityLevel_value q) = Inr q"
    by (cases q) (simp_all add: validate_quality_def QualityLevel_roundtrip)
  show ?thesis using conf v(2)
    by (simp add: r result_dict_def validate_result_def each qual validate_systems_def
        validate_total_systems_def validate_total_tasks_def validate_total_tasks_count_def)
qed

lemma example_task1_valid: "validate_task example_task1 =
   Inr \<lparr> task_number = Some 7, task_description = ''Check worn or missing blades'',
            task_type = inspection, task_requirements = None, task_safety_notes = None,
            task_estimated_time = None \<rparr>"
  by (simp add: example_task1_def validate_task_def validate_description_def strip_def py_isspace_def)

lemma example_task2_valid: "validate_task example_task2 =
   Inr \<lparr> task_number = Some 3, task_description = ''Check scraper frames and blades'',
            task_type = maintenance, task_requirements = None, task_safety_notes = None,
            task_estimated_time = Some 15 \<rparr>"
  by (simp add: example_task2_def validate_task_def validate_description_def strip_def py_isspace_def
     TaskType_of_def)

lemma example_candidate_valid:
  "validate_ai_response example_candidate = (True, Valid, Some example_result)"
  by (simp add: validate_ai_response_def validate_result_def example_candidate_def example_system_def
      validate_system_def example_task1_valid example_task2_valid validate_tasks_def
      validate_name_def strip_def py_isspace_def validate_systems_def validate_quality_def
      QualityLevel_of_def validate_total_systems_def validate_total_tasks_def
      validate_total_tasks_count_def example_result_def)

lemma validate_result_InrI:
  "rr_success c = Some ok \<Longrightarrow> rr_confidence c = Some conf \<Longrightarrow> float_ge conf 0 \<Longrightarrow>
   float_le conf 1 \<Longrightarrow> rr_processing_method c = Some pm \<Longrightarrow> rr_systems c = Some ss \<Longrightarrow>
   validate_each validate_system ss = Inr v \<Longrightarrow> v \<noteq> [] \<Longrightarrow>
   rr_total_systems c = Some ts \<Longrightarrow> rr_total_tasks c = Some tt \<Longrightarrow>
   validate_quality (rr_extraction_quality c) = Inr q \<Longrightarrow>
   validate_result c = Inr \<lparr> success = ok, confidence = conf, processing_method = pm,
                metadata = rr_metadata c, systems = v,
                total_systems = int (length v),
                total_tasks = (\<Sum>system \<leftarrow> v. int (length (sys_tasks system))),
                processing_time = rr_processing_time c,
                extraction_quality = q, warnings = rr_warnings c \<rparr>"
  by (simp add: validate_result_def validate_systems_def validate_total_systems_def
      validate_total_tasks_def validate_total_tasks_count_def)

text \<open>
  Claim C2. Whenever \<open>validate_ai_response\<close> accepts a candidate, the result's
  \<open>total_systems\<close> is the number of its systems and its \<open>total_tasks\<close> is the sum of the
  task counts of its systems. The totals the candidate supplied play no part: replacing
  them by any other integers gives the same accepted result, so a mismatch is corrected and
  never reported.
\<close>

theorem derived_totals:
  assumes "validate_ai_response c = (True, m, Some r)"
  shows "total_systems r = int (length (systems r)) \<and>
         total_tasks r = (\<Sum>s \<leftarrow> systems r. int (length (sys_tasks s))) \<and>
         (\<forall>a b. validate_ai_response (c \<lparr> rr_total_systems := Some a, rr_total_tasks := Some b \<rparr>)
                  = (True, m, Some r))"
proof -
  from assms have r: "validate_result c = Inr r" and m: "m = Valid"
    by (auto simp: validate_ai_response_def split: sum.splits)
  from validate_result_Inr [OF r] obtain ok conf pm ss v and ts tt :: int and q where
    f: "rr_success c = Some ok" "rr_confidence c = Some conf" "float_ge conf 0" "float_le conf 1"
      "rr_processing_method c = Some pm" "rr_systems c = Some ss"
      "validate_each validate_system ss = Inr v" "v \<noteq> []"
      "validate_quality (rr_extraction_quality c) = Inr q"
    and req: "r = \<lparr> success = ok, confidence = conf, processing_method = pm,
                metadata = rr_metadata c, systems = v,
                total_systems = int (length v),
                total_tasks = (\<Sum>system \<leftarrow> v. int (length (sys_tasks system))),
                processing_time = rr_processing_time c,
                extraction_quality = q, warnings = rr_warnings c \<rparr>"
    by blast
  have tot: "total_systems r = int (length (systems r))"
    "total_tasks r = (\<Sum>s \<leftarrow> systems r. int (length (sys_tasks s)))"
    by (simp_all add: req)
  have "validate_result (c \<lparr> rr_total_systems := Some a, rr_total_tasks := Some b \<rparr>) = Inr r" for a b
    using validate_result_InrI [of "c \<lparr> rr_total_systems := Some a, rr_total_tasks := Some b \<rparr>"
        ok conf pm ss v a b q] f
    by (simp add: req)
  then show ?thesis using tot m by (simp add: validate_ai_response_def)
qed

text \<open>The example candidate claims 99 systems and 0 tasks; the result has 1 and 2.\<close>

theorem derived_totals_witness:
  "validate_ai_response example_candidate = (True, Valid, Some example_result) \<and>
   rr_total_systems example_candidate = Some 99 \<and> rr_total_tasks example_candidate = Some 0 \<and>
   total_systems example_result = 1 \<and> total_tasks example_result = 2 \<and>
   length (systems example_result) = 1 \<and>
   validate_ai_response (example_candidate \<lparr> rr_total_systems := Some 5, rr_total_tasks := Some (- 4) \<rparr>)
     = (True, Valid, Some example_result)"
  using derived_totals [OF example_candidate_valid]
  by (simp add: example_candidate_def example_result_def)

text \<open>
  Claim C3. In every system of an accepted result the tasks carry the numbers
  \<open>1, 2, ..., N\<close> in list order, whatever numbers the candidate supplied.
\<close>

theorem tasks_renumbered:
  assumes "validate_ai_response c = (True, m, Some r)" and "s \<in> set (systems r)"
  shows "map task_number (sys_tasks s) = map (\<lambda>i. Some (int i)) [1..<Suc (length (sys_tasks s))]"
proof -
  from assms(1) have r: "validate_result c = Inr r"
    by (auto simp: validate_ai_response_def split: sum.splits)
  from validate_result_Inr [OF r] obtain ss where
    "validate_each validate_system ss = Inr (systems r)" by auto
  then have "list_all2 (\<lambda>x y. validate_system x = Inr y) ss (systems r)"
    by (rule validate_each_all2)
  with assms(2) obtain x where "validate_system x = Inr s"
    by (auto simp: list_all2_conv_all_nth in_set_conv_nth)
  from validate_system_Inr [OF this] obtain v where "validate_tasks v = Inr (sys_tasks s)"
    by auto
  then show ?thesis by (rule validate_tasks_numbers)
qed

text \<open>The example candidate numbers its two tasks 7 and 3; the result numbers them 1 and 2.\<close>

theorem tasks_renumbered_witness:
  "validate_ai_response example_candidate = (True, Valid, Some example_result) \<and>
   map rt_number (the (rs_tasks example_system)) = [Some 7, Some 3] \<and>
   hd (systems example_result) \<in> set (systems example_result) \<and>
   map task_number (sys_tasks (hd (systems example_result))) = [Some 1, Some 2]"
proof -
  have mem: "hd (systems example_result) \<in> set (systems example_result)"
    by (simp add: example_result_def)
  have "[1..<Suc (length (sys_tasks (hd (systems example_result))))] = [1, 2]"
    by (simp add: example_result_def upt_rec)
  then show ?thesis
    using tasks_renumbered [OF example_candidate_valid mem] example_candidate_valid mem
    by (simp add: example_system_def example_task1_def example_task2_def)
qed

text \<open>
  Claim C4 as stated fails: a candidate whose confidence is 1.7 is not clamped to 1.0, it is
  rejected by the constraint \<open>le=1.0\<close>.
\<close>

theorem confidence_clamp_counterexample:
  "validate_ai_response overconfident_candidate
     = (False, SchemaValidationError (NotLe ''confidence'' 1), None)"
  by (simp add: overconfident_candidate_def example_candidate_def validate_ai_response_def
      validate_result_def)

text \<open>
  Claim C4, amended. An accepted result carries the confidence the candidate supplied, and
  that value is a finite number in \<open>[0, 1]\<close>. A candidate whose confidence is absent, or
  is not both \<open>\<ge> 0.0\<close> and \<open>\<le> 1.0\<close>, is rejected with a schema validation error: nothing
  is clamped and no default is substituted.
\<close>

theorem confidence_checked:
  "(validate_ai_response c = (True, m, Some r) \<longrightarrow>
      rr_confidence c = Some (confidence r) \<and>
      (\<exists>q. confidence r = Finite q \<and> 0 \<le> q \<and> q \<le> 1)) \<and>
   ((rr_confidence c = None \<or> (\<exists>x. rr_confidence c = Some x \<and> \<not> (float_ge x 0 \<and> float_le x 1))) \<longrightarrow>
      (\<exists>e. validate_ai_response c = (False, SchemaValidationError e, None)))"
proof (intro conjI impI)
  assume a: "validate_ai_response c = (True, m, Some r)"
  then have r: "validate_result c = Inr r"
    by (auto simp: validate_ai_response_def split: sum.splits)
  from validate_result_Inr [OF r] obtain conf where
    c: "rr_confidence c = Some conf" "float_ge conf 0" "float_le conf 1" "confidence r = conf"
    by auto
  then show "rr_confidence c = Some (confidence r)" by simp
  from c show "\<exists>q. confidence r = Finite q \<and> 0 \<le> q \<and> q \<le> 1"
    by (cases conf) auto
next
  assume "rr_confidence c = None \<or> (\<exists>x. rr_confidence c = Some x \<and> \<not> (float_ge x 0 \<and> float_le x 1))"
  then have "\<exists>e. validate_result c = Inl e"
    by (auto simp: validate_result_def split: option.splits)
  then show "\<exists>e. validate_ai_response c = (False, SchemaValidationError e, None)"
    by (auto simp: validate_ai_response_def)
qed

text \<open>Confidence 0.95 is kept; 1.7, -0.2 and an absent confidence are rejected.\<close>

theorem confidence_checked_witness:
  "validate_ai_response example_candidate = (True, Valid, Some example_result) \<and>
   confidence example_result = Finite (19 / 20) \<and>
   rr_confidence overconfident_candidate = Some (Finite (17 / 10)) \<and>
   \<not> (float_ge (Finite (17 / 10)) 0 \<and> float_le (Finite (17 / 10)) 1) \<and>
   (\<exists>e. validate_ai_response overconfident_candidate = (False, SchemaValidationError e, None)) \<and>
   (\<exists>e. validate_ai_response (example_candidate \<lparr> rr_confidence := Some (Finite (- 1 / 5)) \<rparr>)
          = (False, SchemaValidationError e, None)) \<and>
   (\<exists>e. validate_ai_response (example_candidate \<lparr> rr_confidence := None \<rparr>)
          = (False, SchemaValidationError e, None))"
  using confidence_checked [of example_candidate Valid example_result]
    confidence_checked [of overconfident_candidate Valid example_result]
    confidence_checked [of "example_candidate \<lparr> rr_confidence := Some (Finite (- 1 / 5)) \<rparr>" Valid example_result]
    confidence_checked [of "example_candidate \<lparr> rr_confidence := None \<rparr>" Valid example_result]
    example_candidate_valid
  by (simp add: overconfident_candidate_def example_result_def)

lemma strip_padded:
  assumes "\<not> py_isspace c"
  shows "strip (replicate (Suc n) c @ '' '') = replicate (Suc n) c"
proof -
  have sp: "py_isspace (CHR '' '')" by (simp add: py_isspace_def)
  have a: "dropWhile py_isspace (replicate (Suc n) c @ '' '') = replicate (Suc n) c @ '' ''"
    using assms by simp
  have b: "rev (replicate (Suc n) c @ '' '') = CHR '' '' # replicate (Suc n) c"
    by (simp add: replicate_append_same)
  have c: "dropWhile py_isspace (CHR '' '' # replicate (Suc n) c) = replicate (Suc n) c"
    using assms sp by simp
  show ?thesis unfolding strip_def a b c by (simp add: replicate_append_same)
qed

lemma padded_description_strip: "strip padded_description = replicate 500 (CHR ''x'')"
proof -
  have "\<not> py_isspace (CHR ''x'')" by (simp add: py_isspace_def)
  from strip_padded [OF this, of 499] show ?thesis by (simp add: padded_description_def)
qed

text \<open>
  Claim C6 as stated fails: a description of 500 letters followed by one space has a stripped
  length of 500, inside the bounds, yet the task is rejected, because \<open>max_length=500\<close>
  applies to the string as supplied.
\<close>

theorem trimmed_bounds_counterexample:
  "rt_description padded_task = Some padded_description \<and>
   length (strip padded_description) = 500 \<and>
   validate_task padded_task = Inl (MaxLength ''description'' 500)"
  by (simp add: padded_description_strip padded_task_def validate_task_def)
    (simp add: padded_description_def)

text \<open>
  Claim C6, amended. A task is accepted exactly when its description is present, has at
  most 500 characters as supplied and at least 10 characters after stripping, and its type,
  if given, is one of the enumeration's values; the accepted task stores the stripped
  description, whose length is between 10 and 500. A system whose name, as supplied, is
  shorter than 3 or longer than 200 characters (in particular one whose stripped name is
  longer than 200) is rejected. A system whose name has at least 3 characters after
  stripping and at most 200 as supplied, and whose task list is non-empty with every task
  accepted, is accepted and stores the stripped name.
\<close>

theorem length_bounds_checked:
  "((\<exists>t'. validate_task t = Inr t') \<longleftrightarrow>
       (\<exists>d. rt_description t = Some d \<and> length d \<le> 500 \<and> 10 \<le> length (strip d) \<and>
            (\<forall>ty. rt_type t = Some ty \<longrightarrow> TaskType_of ty \<noteq> None))) \<and>
   (validate_task t = Inr t' \<longrightarrow>
       (\<exists>d. rt_description t = Some d \<and> task_description t' = strip d) \<and>
       10 \<le> length (task_description t') \<and> length (task_description t') \<le> 500) \<and>
   (rs_name s = Some n \<and> (length n < 3 \<or> 200 < length n \<or> 200 < length (strip n)) \<longrightarrow>
       (\<exists>e. validate_system s = Inl e)) \<and>
   (rs_name s = Some n \<and> 3 \<le> length (strip n) \<and> length n \<le> 200 \<and>
    rs_tasks s = Some ts \<and> ts \<noteq> [] \<and> (\<forall>x \<in> set ts. \<exists>x'. validate_task x = Inr x') \<longrightarrow>
       (\<exists>s'. validate_system s = Inr s' \<and> sys_name s' = strip n))"
proof -
  have task_iff: "(\<exists>t'. validate_task t = Inr t') \<longleftrightarrow>
       (\<exists>d. rt_description t = Some d \<and> length d \<le> 500 \<and> 10 \<le> length (strip d) \<and>
            (\<forall>ty. rt_type t = Some ty \<longrightarrow> TaskType_of ty \<noteq> None))"
  proof
    assume "\<exists>t'. validate_task t = Inr t'"
    then obtain t' where "validate_task t = Inr t'" by blast
    from validate_task_Inr [OF this]
    show "\<exists>d. rt_description t = Some d \<and> length d \<le> 500 \<and> 10 \<le> length (strip d) \<and>
            (\<forall>ty. rt_type t = Some ty \<longrightarrow> TaskType_of ty \<noteq> None)"
      by (auto split: option.splits)
  next
    assume "\<exists>d. rt_description t = Some d \<and> length d \<le> 500 \<and> 10 \<le> length (strip d) \<and>
            (\<forall>ty. rt_type t = Some ty \<longrightarrow> TaskType_of ty \<noteq> None)"
    then obtain d where d: "rt_description t = Some d" "length d \<le> 500" "10 \<le> length (strip d)"
      and ty: "\<forall>ty. rt_type t = Some ty \<longrightarrow> TaskType_of ty \<noteq> None" by blast
    have "10 \<le> length d" using d(3) strip_length_le [of d] by linarith
    moreover obtain k where
      "(case rt_type t of None \<Rightarrow> Some inspection | Some s \<Rightarrow> TaskType_of s) = Some k"
      using ty by (cases "rt_type t") auto
    ultimately show "\<exists>t'. validate_task t = Inr t'"
      using d by (simp add: validate_task_def validate_description_def)
  qed
  have task_out: "validate_task t = Inr t' \<longrightarrow>
       (\<exists>d. rt_description t = Some d \<and> task_description t' = strip d) \<and>
       10 \<le> length (task_description t') \<and> length (task_description t') \<le> 500"
  proof
    assume "validate_task t = Inr t'"
    from validate_task_Inr [OF this] obtain d where
      d: "rt_description t = Some d" "length d \<le> 500" "10 \<le> length (strip d)"
        "task_description t' = strip d"
      by auto
    have "length (strip d) \<le> 500" using d(2) strip_length_le [of d] by linarith
    then show "(\<exists>d. rt_description t = Some d \<and> task_description t' = strip d) \<and>
       10 \<le> length (task_description t') \<and> length (task_description t') \<le> 500"
      using d by simp
  qed
  have sys_rej: "rs_name s = Some n \<and> (length n < 3 \<or> 200 < length n \<or> 200 < length (strip n)) \<longrightarrow>
       (\<exists>e. validate_system s = Inl e)"
  proof
    assume a: "rs_name s = Some n \<and> (length n < 3 \<or> 200 < length n \<or> 200 < length (strip n))"
    then have "length n < 3 \<or> 200 < length n" using strip_length_le [of n] by linarith
    then show "\<exists>e. validate_system s = Inl e" using a
      by (auto simp: validate_system_def)
  qed
  have sys_acc: "rs_name s = Some n \<and> 3 \<le> length (strip n) \<and> length n \<le> 200 \<and>
    rs_tasks s = Some ts \<and> ts \<noteq> [] \<and> (\<forall>x \<in> set ts. \<exists>x'. validate_task x = Inr x') \<longrightarrow>
       (\<exists>s'. validate_system s = Inr s' \<and> sys_name s' = strip n)"
  proof
    assume a: "rs_name s = Some n \<and> 3 \<le> length (strip n) \<and> length n \<le> 200 \<and>
      rs_tasks s = Some ts \<and> ts \<noteq> [] \<and> (\<forall>x \<in> set ts. \<exists>x'. validate_task x = Inr x')"
    then have n3: "3 \<le> length n" using strip_length_le [of n] by linarith
    from a have "\<forall>x \<in> set ts. \<exists>x'. validate_task x = Inr x'" by blast
    then have "\<exists>v. list_all2 (\<lambda>x y. validate_task x = Inr y) ts v"
      by (induction ts) (auto simp: list_all2_Cons1)
    then obtain v where v: "validate_each validate_task ts = Inr v"
      by (auto simp: validate_each_all2_iff)
    then have "length v = length ts" by (rule validate_each_length)
    with a have "v \<noteq> []" by auto
    then show "\<exists>s'. validate_system s = Inr s' \<and> sys_name s' = strip n"
      using a n3 v by (simp add: validate_system_def validate_tasks_def validate_name_def)
  qed
  from task_iff task_out sys_rej sys_acc show ?thesis by blast
qed

text \<open>
  The first example task and the example system are accepted and stored stripped; the
  name \<open>ab\<close> is rejected.
\<close>

theorem length_bounds_checked_witness:
  "validate_task example_task1 =
     Inr \<lparr> task_number = Some 7, task_description = ''Check worn or missing blades'',
            task_type = inspection, task_requirements = None, task_safety_notes = None,
            task_estimated_time = None \<rparr> \<and>
   rt_description example_task1 = Some ''  Check worn or missing blades '' \<and>
   length ''  Check worn or missing blades '' \<le> 500 \<and>
   10 \<le> length (strip ''  Check worn or missing blades '') \<and>
   rs_name (example_system \<lparr> rs_name := Some ''ab'' \<rparr>) = Some ''ab'' \<and> length ''ab'' < 3 \<and>
   (\<exists>e. validate_system (example_system \<lparr> rs_name := Some ''ab'' \<rparr>) = Inl e) \<and>
   rs_name example_system = Some '' Belt Scraper system 1 '' \<and>
   3 \<le> length (strip '' Belt Scraper system 1 '') \<and>
   rs_tasks example_system = Some [example_task1, example_task2] \<and>
   (\<exists>x'. validate_task example_task1 = Inr x') \<and> (\<exists>x'. validate_task example_task2 = Inr x') \<and>
   (\<exists>s'. validate_system example_system = Inr s' \<and> sys_name s' = ''Belt Scraper system 1'')"
proof -
  let ?t' = "\<lparr> task_number = Some 7, task_description = ''Check worn or missing blades'',
            task_type = inspection, task_requirements = None, task_safety_notes = None,
            task_estimated_time = None \<rparr>"
  have tasks: "\<forall>x \<in> set [example_task1, example_task2]. \<exists>x'. validate_task x = Inr x'"
    by (simp add: example_task1_valid example_task2_valid)
  have s1: "strip ''  Check worn or missing blades '' = ''Check worn or missing blades''"
    by (simp add: strip_def py_isspace_def)
  have s2: "strip '' Belt Scraper system 1 '' = ''Belt Scraper system 1''"
    by (simp add: strip_def py_isspace_def)
  show ?thesis
    using length_bounds_checked [of example_task1 ?t' "example_system \<lparr> rs_name := Some ''ab'' \<rparr>"
        "''ab''" "[example_task1, example_task2]"]
      length_bounds_checked [of example_task1 ?t' example_system "'' Belt Scraper system 1 ''"
        "[example_task1, example_task2]"]
      tasks example_task1_valid
    by (simp add: s1 s2 example_system_def example_task1_def)
qed

text \<open>
  Claim C9. Re-validation of a validated result is not always the identity: the
  name \<open>"  a  "\<close> has five characters, so the candidate is accepted and the result stores the
  stripped name \<open>"a"\<close>; the field data of that result is then rejected, because the stored
  name is shorter than \<open>min_length=3\<close>. The validator of the task description checks the
  length again after stripping; \<open>validate_name\<close> does not.
\<close>

theorem revalidation_rejects_short_name:
  "validate_ai_response short_name_candidate = (True, Valid, Some short_name_result) \<and>
   validate_ai_response (result_dict short_name_result)
     = (False, SchemaValidationError (MinLength ''name'' 3), None)"
  by (simp add: validate_ai_response_def validate_result_def short_name_candidate_def
      example_candidate_def example_system_def
      validate_system_def example_task1_valid example_task2_valid validate_tasks_def
      validate_name_def strip_def py_isspace_def validate_systems_def validate_quality_def
      QualityLevel_of_def validate_total_systems_def validate_total_tasks_def
      validate_total_tasks_count_def example_result_def short_name_result_def
      result_dict_def system_dict_def)

section \<open>Properties of the classifier\<close>

lemma py_max_from_mem: "py_max_from key b xs \<in> set (b # xs)"
  by (induction xs arbitrary: b) (simp, force)

lemma py_max_from_ge: "x \<in> set (b # xs) \<Longrightarrow> key x \<le> key (py_max_from key b xs)"
proof (induction xs arbitrary: b x)
  case Nil
  then show ?case by simp
next
  case (Cons a xs)
  let ?b' = "if key b < key a then a else b"
  have step: "py_max_from key b (a # xs) = py_max_from key ?b' xs" by simp
  have b': "key ?b' \<le> key (py_max_from key ?b' xs)" by (rule Cons.IH) simp
  from Cons.prems consider "x = b" | "x = a" | "x \<in> set xs" by auto
  then show ?case
  proof cases
    case 1
    then show ?thesis using b' by (auto split: if_splits)
  next
    case 2
    then show ?thesis using b' by (auto split: if_splits)
  next
    case 3
    then have "key x \<le> key (py_max_from key ?b' xs)" by (intro Cons.IH) simp
    then show ?thesis by (simp only: step)
  qed
qed

lemma py_max_from_first:
  "x \<in> set (takeWhile (\<lambda>y. y \<noteq> py_max_from key b xs) (b # xs)) \<Longrightarrow>
     key x < key (py_max_from key b xs)"
proof (induction xs arbitrary: b x)
  case Nil
  then show ?case by simp
next
  case (Cons a xs)
  let ?b' = "if key b < key a then a else b"
  let ?r = "py_max_from key b (a # xs)"
  have step: "?r = py_max_from key ?b' xs" by simp
  have IH: "y \<in> set (takeWhile (\<lambda>y. y \<noteq> ?r) (?b' # xs)) \<Longrightarrow> key y < key ?r" for y
    using Cons.IH [of y ?b'] by (simp only: step)
  have ge: "y \<in> set (?b' # xs) \<Longrightarrow> key y \<le> key ?r" for y
    using py_max_from_ge [of y ?b' xs key] by (simp only: step)
  from Cons.prems have bne: "b \<noteq> ?r" by (auto split: if_splits)
  show ?case
  proof (cases "key b < key a")
    case True
    then have b': "?b' = a" by simp
    have "key a \<le> key ?r" using ge [of a] b' by simp
    then have kb: "key b < key ?r" using True by linarith
    from Cons.prems bne have "x = b \<or> x \<in> set (takeWhile (\<lambda>y. y \<noteq> ?r) (a # xs))"
      by (auto split: if_splits)
    then show ?thesis using kb IH [of x] b' by auto
  next
    case False
    then have b': "?b' = b" by simp
    have kb: "key b < key ?r" using IH [of b] b' bne by simp
    from Cons.prems bne have "x = b \<or> (a \<noteq> ?r \<and> (x = a \<or> x \<in> set (takeWhile (\<lambda>y. y \<noteq> ?r) xs)))"
      by (auto split: if_splits)
    then consider "x = b" | "x = a" | "x \<in> set (takeWhile (\<lambda>y. y \<noteq> ?r) xs)" by blast
    then show ?thesis
    proof cases
      case 1 then show ?thesis using kb by simp
    next
      case 2
      have "key a \<le> key b" using False by simp
      then have "key a < key ?r" using kb by linarith
      then show ?thesis using 2 by simp
    next
      case 3
      then have "x \<in> set (takeWhile (\<lambda>y. y \<noteq> ?r) (?b' # xs))" using b' bne by simp
      then show ?thesis by (rule IH)
    qed
  qed
qed

lemma takeWhile_filter_commute:
  "P r \<Longrightarrow> takeWhile (\<lambda>x. x \<noteq> r) (filter P xs) = filter P (takeWhile (\<lambda>x. x \<noteq> r) xs)"
  by (induction xs) auto

lemma map_of_positive:
  "distinct (map fst ind) \<Longrightarrow>
   map_of (filter (\<lambda>(category, s). 0 < s) (map (\<lambda>(category, keywords). (category, g keywords)) ind)) c
     = (case map_of ind c of None \<Rightarrow> None
        | Some k \<Rightarrow> if (0::int) < g k then Some (g k) else None)"
proof (induction ind)
  case Nil
  then show ?case by simp
next
  case (Cons a ind)
  obtain c' k' where a: "a = (c', k')" by (cases a)
  from Cons.prems have notin: "c' \<notin> fst ` set ind" and d: "distinct (map fst ind)"
    by (simp_all add: a)
  from notin have none: "map_of ind c' = None" by (simp add: map_of_eq_None_iff)
  show ?case using Cons.IH [OF d] none
    by (auto simp: a split: option.splits)
qed

lemma keys_positive:
  "map fst (filter (\<lambda>(category, s). 0 < s) (map (\<lambda>(category, keywords). (category, g keywords)) ind))
     = map fst (filter (\<lambda>(category, keywords). (0::int) < g keywords) ind)"
  by (induction ind) auto

lemma distinct_categories: "distinct (map fst equipment_indicators)"
  by (simp add: equipment_indicators_def)

lemma dict_get_positive_scores:
  assumes "\<And>k. 0 \<le> g k"
  shows "dict_get (positive_scores g) c 0 = (if c \<in> set categories then g (keywords_of c) else 0)"
proof (cases "map_of equipment_indicators c")
  case None
  then have "c \<notin> set categories" by (simp add: categories_def map_of_eq_None_iff)
  then show ?thesis using None
    by (simp add: dict_get_def positive_scores_def map_of_positive [OF distinct_categories])
next
  case (Some k)
  then have "c \<in> set categories"
    by (metis categories_def map_of_eq_None_iff option.distinct(1) set_map)
  moreover have "g k = 0" if "\<not> 0 < g k" using that assms [of k] by linarith
  ultimately show ?thesis using Some
    by (simp add: dict_get_def positive_scores_def map_of_positive [OF distinct_categories]
        keywords_of_def)
qed

lemma keys_positive_scores:
  "map fst (positive_scores g) = filter (\<lambda>c. 0 < g (keywords_of c)) categories"
proof -
  have "distinct (map fst ind) \<Longrightarrow>
        map fst (filter (\<lambda>(category, keywords). (0::int) < g keywords) ind)
        = filter (\<lambda>c. 0 < g (dict_get ind c [])) (map fst ind)" for ind :: "(string \<times> string list) list"
  proof (induction ind)
    case Nil
    then show ?case by simp
  next
    case (Cons a ind)
    obtain c' k' where a: "a = (c', k')" by (cases a)
    from Cons.prems have notin: "c' \<notin> fst ` set ind" and d: "distinct (map fst ind)"
      by (simp_all add: a)
    have same: "filter (\<lambda>c. 0 < g (dict_get ((c', k') # ind) c [])) (map fst ind)
          = filter (\<lambda>c. 0 < g (dict_get ind c [])) (map fst ind)"
      using notin by (intro filter_cong) (auto simp: dict_get_def)
    show ?case using Cons.IH [OF d] same
      by (simp add: a dict_get_def)
  qed
  from this [OF distinct_categories] show ?thesis
    by (simp add: positive_scores_def keys_positive categories_def keywords_of_def)
qed

lemma count_nonneg: "0 \<le> count s sub"
proof (induction s sub rule: count.induct)
  case (1 s sub)
  show ?case using 1 by (subst count.simps) (simp del: count.simps)
qed

lemma content_score_nonneg: "0 \<le> content_score st k"
  unfolding content_score_def
  by (rule sum_list_nonneg) (auto simp: count_nonneg simp del: count.simps)

lemma filename_score_nonneg: "0 \<le> filename_score fn k"
  unfolding filename_score_def
  by (rule sum_list_nonneg) auto

lemma py_max_from_cong:
  "(\<And>x. x \<in> set (b # xs) \<Longrightarrow> f x = g x) \<Longrightarrow> py_max_from f b xs = py_max_from g b xs"
proof (induction xs arbitrary: b)
  case Nil
  then show ?case by simp
next
  case (Cons a xs)
  have fa: "f a = g a" and fb: "f b = g b" using Cons.prems by simp_all
  have "py_max_from f (if f b < f a then a else b) xs = py_max_from g (if f b < f a then a else b) xs"
    by (rule Cons.IH) (use Cons.prems in auto)
  then show ?case by (simp add: fa fb)
qed

lemma detect_filename_path:
  assumes "\<not> avail \<or> doc = Inl e"
  shows "detect_document_type avail si doc p =
     (case filter (\<lambda>c. 0 < filename_score (lower (basename p)) (keywords_of c)) categories of
        [] \<Rightarrow> ''general''
      | k # ks \<Rightarrow> py_max_from (\<lambda>c. filename_score (lower (basename p)) (keywords_of c)) k ks)"
proof -
  let ?fn = "lower (basename p)"
  let ?F = "\<lambda>c. filename_score ?fn (keywords_of c)"
  let ?fs = "positive_scores (filename_score ?fn)"
  have keys: "map fst ?fs = filter (\<lambda>c. 0 < ?F c) categories"
    by (rule keys_positive_scores)
  have get: "c \<in> set categories \<Longrightarrow> dict_get ?fs c 0 = ?F c" for c
    using dict_get_positive_scores [of "filename_score ?fn" c]
    by (simp add: filename_score_nonneg)
  have eq: "(case map fst ?fs of [] \<Rightarrow> ''general''
             | k # ks \<Rightarrow> py_max_from (\<lambda>k. dict_get ?fs k 0) k ks)
          = (case filter (\<lambda>c. 0 < ?F c) categories of [] \<Rightarrow> ''general''
             | k # ks \<Rightarrow> py_max_from ?F k ks)"
  proof (cases "filter (\<lambda>c. 0 < ?F c) categories")
    case Nil
    then show ?thesis by (simp add: keys)
  next
    case (Cons k ks)
    have "set (k # ks) \<subseteq> set categories"
      by (metis Cons filter_is_subset)
    then have "py_max_from (\<lambda>k. dict_get ?fs k 0) k ks = py_max_from ?F k ks"
      by (intro py_max_from_cong get) auto
    then show ?thesis by (simp add: keys Cons)
  qed
  from assms show ?thesis
    by (auto simp: detect_document_type_def Let_def eq)
qed

lemma detect_content_path:
  assumes "\<And>xs. set (si xs) = set xs"
  shows "detect_document_type True si (Inr pages) p =
     (case si (remdups (filter (\<lambda>c. 0 < filename_score (lower (basename p)) (keywords_of c)) categories
                 @ filter (\<lambda>c. 0 < content_score (sample_text_of pages) (keywords_of c)) categories)) of
        [] \<Rightarrow> ''general''
      | k # ks \<Rightarrow> py_max_from (total_score (lower (basename p)) (sample_text_of pages)) k ks)"
proof -
  let ?fn = "lower (basename p)"
  let ?st = "sample_text_of pages"
  let ?F = "\<lambda>c. filename_score ?fn (keywords_of c)"
  let ?C = "\<lambda>c. content_score ?st (keywords_of c)"
  let ?fs = "positive_scores (filename_score ?fn)"
  let ?cs = "positive_scores (content_score ?st)"
  let ?h = "\<lambda>category. (dict_get ?fs category 0 * 1 + dict_get ?cs category 0 * 2)"
  let ?cats = "remdups (filter (\<lambda>c. 0 < ?F c) categories @ filter (\<lambda>c. 0 < ?C c) categories)"
  let ?order = "si ?cats"
  let ?total = "map (\<lambda>category. (category, ?h category)) ?order"
  have keysF: "map fst ?fs = filter (\<lambda>c. 0 < ?F c) categories"
    by (rule keys_positive_scores)
  have keysC: "map fst ?cs = filter (\<lambda>c. 0 < ?C c) categories"
    by (rule keys_positive_scores)
  have h: "c \<in> set categories \<Longrightarrow> ?h c = total_score ?fn ?st c" for c
    using dict_get_positive_scores [of "filename_score ?fn" c]
      dict_get_positive_scores [of "content_score ?st" c]
    by (simp add: filename_score_nonneg content_score_nonneg total_score_def)
  have sub: "set ?order \<subseteq> set categories"
    by (auto simp: assms)
  have keysT: "map fst ?total = ?order" by (simp add: comp_def)
  have getT: "c \<in> set ?order \<Longrightarrow> dict_get ?total c 0 = total_score ?fn ?st c" for c
  proof -
    assume c: "c \<in> set ?order"
    then have "map_of ?total c = Some (?h c)"
      by (simp add: map_of_map_restrict)
    then show ?thesis using h [of c] c sub by (auto simp: dict_get_def)
  qed
  show ?thesis
  proof (cases ?order)
    case Nil
    then have "set ?cats = {}" using assms [of ?cats] by simp
    then have "filter (\<lambda>c. 0 < ?F c) categories = []" by simp
    then have "map fst ?fs = []" using keysF by simp
    then show ?thesis using Nil
      by (simp add: detect_document_type_def Let_def keysF keysC comp_def)
  next
    case (Cons k ks)
    have "py_max_from (\<lambda>k. dict_get ?total k 0) k ks = py_max_from (total_score ?fn ?st) k ks"
      by (rule py_max_from_cong) (use getT Cons in auto)
    then show ?thesis using Cons
      by (simp add: detect_document_type_def Let_def keysF keysC comp_def)
  qed
qed

lemma total_score_nonneg: "0 \<le> total_score fn st c"
  using filename_score_nonneg [of fn "keywords_of c"] content_score_nonneg [of st "keywords_of c"]
  by (simp add: total_score_def)

lemma total_score_pos_iff:
  "0 < total_score fn st c \<longleftrightarrow>
     0 < filename_score fn (keywords_of c) \<or> 0 < content_score st (keywords_of c)"
  using filename_score_nonneg [of fn "keywords_of c"] content_score_nonneg [of st "keywords_of c"]
  by (auto simp: total_score_def)

lemma content_path_max:
  fixes si :: "string list \<Rightarrow> string list" and pages :: "string list" and p :: string
  assumes si: "\<And>xs. set (si xs) = set xs"
  defines "r \<equiv> detect_document_type True si (Inr pages) p"
  defines "T \<equiv> total_score (lower (basename p)) (sample_text_of pages)"
  shows "(\<exists>c \<in> set categories. 0 < T c) \<Longrightarrow> r \<in> set categories \<and> (\<forall>c \<in> set categories. T c \<le> T r)"
    and "(\<forall>c \<in> set categories. T c = 0) \<Longrightarrow> r = ''general''"
proof -
  let ?fn = "lower (basename p)"
  let ?st = "sample_text_of pages"
  let ?cats = "remdups (filter (\<lambda>c. 0 < filename_score ?fn (keywords_of c)) categories
                 @ filter (\<lambda>c. 0 < content_score ?st (keywords_of c)) categories)"
  have r: "r = (case si ?cats of [] \<Rightarrow> ''general'' | k # ks \<Rightarrow> py_max_from T k ks)"
    unfolding r_def T_def by (rule detect_content_path [OF si])
  have mem: "c \<in> set (si ?cats) \<longleftrightarrow> c \<in> set categories \<and> 0 < T c" for c
    by (auto simp: si T_def total_score_pos_iff)
  {
    assume "\<exists>c \<in> set categories. 0 < T c"
    then obtain c0 where "c0 \<in> set (si ?cats)" using mem by blast
    then obtain k ks where kks: "si ?cats = k # ks" by (cases "si ?cats") auto
    then have rk: "r = py_max_from T k ks" by (simp add: r)
    have rin: "r \<in> set (si ?cats)" unfolding rk kks by (rule py_max_from_mem)
    have "T c \<le> T r" if "c \<in> set categories" for c
    proof (cases "0 < T c")
      case True
      then have "c \<in> set (k # ks)" using mem that kks by simp
      then show ?thesis unfolding rk by (rule py_max_from_ge)
    next
      case False
      moreover have "0 < T r" using rin mem by blast
      ultimately show ?thesis by linarith
    qed
    then show "r \<in> set categories \<and> (\<forall>c \<in> set categories. T c \<le> T r)"
      using rin mem by blast
  }
  {
    assume "\<forall>c \<in> set categories. T c = 0"
    then have "\<And>c. c \<notin> set (si ?cats)" using mem by simp
    then have "si ?cats = []" by (cases "si ?cats") (simp, force)
    then show "r = ''general''" by (simp add: r)
  }
qed

lemma filename_path_max:
  fixes si :: "string list \<Rightarrow> string list" and doc :: "py_exception + string list"
    and p :: string and avail :: bool
  assumes path: "\<not> avail \<or> doc = Inl e"
  defines "r \<equiv> detect_document_type avail si doc p"
  defines "F \<equiv> \<lambda>c. filename_score (lower (basename p)) (keywords_of c)"
  shows "(\<exists>c \<in> set categories. 0 < F c) \<Longrightarrow>
           r \<in> set categories \<and> (\<forall>c \<in> set categories. F c \<le> F r) \<and>
           (\<forall>c \<in> set (takeWhile (\<lambda>c. c \<noteq> r) categories). F c < F r)"
    and "(\<forall>c \<in> set categories. F c = 0) \<Longrightarrow> r = ''general''"
proof -
  let ?keys = "filter (\<lambda>c. 0 < F c) categories"
  have r: "r = (case ?keys of [] \<Rightarrow> ''general'' | k # ks \<Rightarrow> py_max_from F k ks)"
    unfolding r_def F_def by (rule detect_filename_path [OF path])
  {
    assume "\<exists>c \<in> set categories. 0 < F c"
    then obtain c0 where "c0 \<in> set ?keys" by auto
    then obtain k ks where kks: "?keys = k # ks" by (cases ?keys) auto
    then have rk: "r = py_max_from F k ks" by (simp add: r)
    have rin: "r \<in> set ?keys" unfolding rk kks by (rule py_max_from_mem)
    then have rpos: "0 < F r" and rcat: "r \<in> set categories" by simp_all
    have ge: "F c \<le> F r" if "c \<in> set categories" for c
    proof (cases "0 < F c")
      case True
      then have "c \<in> set (k # ks)" using that kks [symmetric] by simp
      then show ?thesis unfolding rk by (rule py_max_from_ge)
    next
      case False
      then show ?thesis using rpos by linarith
    qed
    have first: "F c < F r" if c: "c \<in> set (takeWhile (\<lambda>c. c \<noteq> r) categories)" for c
    proof (cases "0 < F c")
      case True
      then have "c \<in> set (filter (\<lambda>c. 0 < F c) (takeWhile (\<lambda>c. c \<noteq> r) categories))"
        using c by simp
      then have "c \<in> set (takeWhile (\<lambda>c. c \<noteq> r) ?keys)"
        using takeWhile_filter_commute [of "\<lambda>c. 0 < F c" r categories] rpos by simp
      then have "c \<in> set (takeWhile (\<lambda>y. y \<noteq> py_max_from F k ks) (k # ks))"
        using kks rk by simp
      then show ?thesis unfolding rk by (rule py_max_from_first)
    next
      case False
      then show ?thesis using rpos by linarith
    qed
    show "r \<in> set categories \<and> (\<forall>c \<in> set categories. F c \<le> F r) \<and>
           (\<forall>c \<in> set (takeWhile (\<lambda>c. c \<noteq> r) categories). F c < F r)"
      using rcat ge first by blast
  }
  {
    assume "\<forall>c \<in> set categories. F c = 0"
    then have "?keys = []" by (simp add: filter_empty_conv)
    then show "r = ''general''" by (simp add: r)
  }
qed

lemma scenario_D_scores:
  "\<forall>c \<in> set categories.
     filename_score ''electrical_panel_inspection.pdf'' (keywords_of ''electrical'')
       \<le> filename_score ''electrical_panel_inspection.pdf'' (keywords_of c)
     \<longrightarrow> c = ''electrical''"
  by code_simp

lemma scenario_D_electrical:
  "''electrical'' \<in> set categories \<and>
   0 < filename_score ''electrical_panel_inspection.pdf'' (keywords_of ''electrical'')"
  by code_simp

text \<open>
  Claim C7 as stated fails on the tie-break. The file name \<open>belt_motor.pdf\<close> scores 1 for
  \<open>conveyor\<close> and 1 for \<open>electrical\<close>, and the page has no text. When the file can be read,
  the categories pass through a Python \<open>set\<close>; if the set yields \<open>electrical\<close> first, the
  classifier returns \<open>electrical\<close>, although \<open>conveyor\<close> is declared first.
\<close>

theorem declared_order_tie_counterexample:
  "total_score (lower (basename ''/media/pdfs/belt_motor.pdf'')) (sample_text_of ['''']) ''conveyor'' = 1 \<and>
   total_score (lower (basename ''/media/pdfs/belt_motor.pdf'')) (sample_text_of ['''']) ''electrical'' = 1 \<and>
   takeWhile (\<lambda>c. c \<noteq> ''electrical'') categories = [''conveyor''] \<and>
   set (rev [''conveyor'', ''electrical'']) = set [''conveyor'', ''electrical''] \<and>
   detect_document_type True rev (Inr ['''']) ''/media/pdfs/belt_motor.pdf'' = ''electrical''"
  by code_simp

text \<open>
  Claim C7, amended. The score of a category is the number of its keywords that occur in the
  lower-cased base name of the path, plus twice the number of occurrences of its keywords in
  the sampled text. When the pages are read, the classifier returns a category of maximal
  score if some score is positive (which one among equal scores depends on the iteration
  order of a set), and \<open>general\<close> if no keyword matches. When PyMuPDF is unavailable or
  the file cannot be read, only the file name counts; the classifier then returns the first
  category in declared order among those of maximal score, and \<open>general\<close> if no keyword
  matches. For the file name \<open>electrical_panel_inspection.pdf\<close> the answer is
  \<open>electrical\<close>, both without content and with a sample in which no keyword occurs.
\<close>

theorem document_type_detected:
  "((\<forall>xs. set (si xs) = set xs) \<longrightarrow>
      (let T = total_score (lower (basename pdf_path)) (sample_text_of pages);
           r = detect_document_type True si (Inr pages) pdf_path
       in ((\<exists>c \<in> set categories. 0 < T c) \<longrightarrow>
              r \<in> set categories \<and> (\<forall>c \<in> set categories. T c \<le> T r)) \<and>
          ((\<forall>c \<in> set categories. T c = 0) \<longrightarrow> r = ''general''))) \<and>
   (\<not> avail \<or> doc = Inl e \<longrightarrow>
      (let F = (\<lambda>c. filename_score (lower (basename pdf_path)) (keywords_of c));
           r = detect_document_type avail si doc pdf_path
       in ((\<exists>c \<in> set categories. 0 < F c) \<longrightarrow>
              r \<in> set categories \<and> (\<forall>c \<in> set categories. F c \<le> F r) \<and>
              (\<forall>c \<in> set (takeWhile (\<lambda>c. c \<noteq> r) categories). F c < F r)) \<and>
          ((\<forall>c \<in> set categories. F c = 0) \<longrightarrow> r = ''general''))) \<and>
   (lower (basename pdf_path) = ''electrical_panel_inspection.pdf'' \<longrightarrow>
      (\<not> avail \<or> doc = Inl e \<longrightarrow> detect_document_type avail si doc pdf_path = ''electrical'') \<and>
      ((\<forall>xs. set (si xs) = set xs) \<and>
       (\<forall>c \<in> set categories. content_score (sample_text_of pages) (keywords_of c) = 0) \<longrightarrow>
         detect_document_type True si (Inr pages) pdf_path = ''electrical''))"
proof (intro conjI impI)
  assume si: "\<forall>xs. set (si xs) = set xs"
  then have si': "\<And>xs. set (si xs) = set xs" by blast
  show "let T = total_score (lower (basename pdf_path)) (sample_text_of pages);
           r = detect_document_type True si (Inr pages) pdf_path
       in ((\<exists>c \<in> set categories. 0 < T c) \<longrightarrow>
              r \<in> set categories \<and> (\<forall>c \<in> set categories. T c \<le> T r)) \<and>
          ((\<forall>c \<in> set categories. T c = 0) \<longrightarrow> r = ''general'')"
    unfolding Let_def
    using content_path_max [where si=si and pages=pages and p=pdf_path, OF si'] by blast
next
  assume path: "\<not> avail \<or> doc = Inl e"
  show "let F = (\<lambda>c. filename_score (lower (basename pdf_path)) (keywords_of c));
           r = detect_document_type avail si doc pdf_path
       in ((\<exists>c \<in> set categories. 0 < F c) \<longrightarrow>
              r \<in> set categories \<and> (\<forall>c \<in> set categories. F c \<le> F r) \<and>
              (\<forall>c \<in> set (takeWhile (\<lambda>c. c \<noteq> r) categories). F c < F r)) \<and>
          ((\<forall>c \<in> set categories. F c = 0) \<longrightarrow> r = ''general'')"
    unfolding Let_def
    using filename_path_max [where avail=avail and doc=doc and e=e and p=pdf_path and si=si, OF path] by blast
next
  assume fn: "lower (basename pdf_path) = ''electrical_panel_inspection.pdf''"
    and path: "\<not> avail \<or> doc = Inl e"
  let ?r = "detect_document_type avail si doc pdf_path"
  from scenario_D_electrical
  have ex: "\<exists>c \<in> set categories. 0 < filename_score (lower (basename pdf_path)) (keywords_of c)"
    unfolding fn by blast
  from filename_path_max(1) [where avail=avail and doc=doc and e=e and p=pdf_path and si=si, OF path ex]
  have "?r \<in> set categories"
    and "filename_score ''electrical_panel_inspection.pdf'' (keywords_of ''electrical'')
          \<le> filename_score ''electrical_panel_inspection.pdf'' (keywords_of ?r)"
    using scenario_D_electrical unfolding fn by blast+
  then show "?r = ''electrical''" using scenario_D_scores by blast
next
  assume fn: "lower (basename pdf_path) = ''electrical_panel_inspection.pdf''"
    and a: "(\<forall>xs. set (si xs) = set xs) \<and>
       (\<forall>c \<in> set categories. content_score (sample_text_of pages) (keywords_of c) = 0)"
  then have si': "\<And>xs. set (si xs) = set xs" by blast
  let ?r = "detect_document_type True si (Inr pages) pdf_path"
  let ?T = "total_score ''electrical_panel_inspection.pdf'' (sample_text_of pages)"
  have T: "c \<in> set categories \<Longrightarrow>
      ?T c = filename_score ''electrical_panel_inspection.pdf'' (keywords_of c)" for c
    using a by (simp add: total_score_def)
  have ex: "\<exists>c \<in> set categories.
      0 < total_score (lower (basename pdf_path)) (sample_text_of pages) c"
    unfolding fn using scenario_D_electrical T by auto
  from content_path_max(1) [where si=si and pages=pages and p=pdf_path, OF si' ex]
  have rin: "?r \<in> set categories" and "?T ''electrical'' \<le> ?T ?r"
    using scenario_D_electrical unfolding fn by blast+
  then have "filename_score ''electrical_panel_inspection.pdf'' (keywords_of ''electrical'')
          \<le> filename_score ''electrical_panel_inspection.pdf'' (keywords_of ?r)"
    using T scenario_D_electrical by simp
  then show "?r = ''electrical''" using scenario_D_scores rin by blast
qed

text \<open>
  Content decides for \<open>hydraulic\<close>; without content the tie of \<open>Belt_Motor.pdf\<close> goes to
  \<open>conveyor\<close>; no keyword gives \<open>general\<close>; the electrical panel is \<open>electrical\<close>.
\<close>

theorem document_type_detected_witness:
  "(\<forall>xs :: string list. set (rev xs) = set xs) \<and>
   total_score ''belt_motor.pdf'' ''check the pump and the pump valve'' ''hydraulic'' = 6 \<and>
   detect_document_type True rev (Inr [''Check the PUMP and the pump valve''])
      ''/media/pdfs/Belt_Motor.pdf'' = ''hydraulic'' \<and>
   filename_score ''belt_motor.pdf'' (keywords_of ''conveyor'') = 1 \<and>
   filename_score ''belt_motor.pdf'' (keywords_of ''electrical'') = 1 \<and>
   detect_document_type True rev (Inl (FileDataError [])) ''/media/pdfs/Belt_Motor.pdf'' = ''conveyor'' \<and>
   detect_document_type True rev (Inr [''Page 1 of 3'']) ''/media/pdfs/report_7.pdf'' = ''general'' \<and>
   lower (basename ''/media/pdfs/Electrical_Panel_Inspection.pdf'') = ''electrical_panel_inspection.pdf'' \<and>
   detect_document_type False rev (Inr [''Page 1 of 3''])
      ''/media/pdfs/Electrical_Panel_Inspection.pdf'' = ''electrical'' \<and>
   detect_document_type True rev (Inr [''Page 1 of 3''])
      ''/media/pdfs/Electrical_Panel_Inspection.pdf'' = ''electrical''"
proof -
  have rev_ok: "\<forall>xs :: string list. set (rev xs) = set xs" by simp
  have e1: "lower (basename ''/media/pdfs/Belt_Motor.pdf'') = ''belt_motor.pdf''" by code_simp
  have e2: "sample_text_of [''Check the PUMP and the pump valve'']
              = ''check the pump and the pump valve''" by code_simp
  let ?T = "total_score ''belt_motor.pdf'' ''check the pump and the pump valve''"
  let ?F = "\<lambda>c. filename_score ''belt_motor.pdf'' (keywords_of c)"
  have e3: "?T ''hydraulic'' = 6" by code_simp
  have e4: "\<forall>c \<in> set categories. ?T c \<le> 6 \<and> (?T c = 6 \<longrightarrow> c = ''hydraulic'')"
    by code_simp
  have e5: "''hydraulic'' \<in> set categories" by code_simp
  have e6: "?F ''conveyor'' = 1" "?F ''electrical'' = 1" "''conveyor'' \<in> set categories"
    by code_simp+
  have e6a: "\<forall>c \<in> set categories. ?F c \<le> 1" by code_simp
  have e6b: "\<forall>c \<in> set categories. c \<noteq> ''conveyor'' \<longrightarrow>
                ''conveyor'' \<in> set (takeWhile (\<lambda>x. x \<noteq> c) categories)"
    by code_simp
  have e7: "lower (basename ''/media/pdfs/report_7.pdf'') = ''report_7.pdf''"
    "sample_text_of [''Page 1 of 3''] = ''page 1 of 3''"
    by code_simp+
  have e7a: "\<forall>c \<in> set categories. total_score ''report_7.pdf'' ''page 1 of 3'' c = 0"
    by code_simp
  have e7b: "\<forall>c \<in> set categories. content_score ''page 1 of 3'' (keywords_of c) = 0"
    by code_simp
  have e8: "lower (basename ''/media/pdfs/Electrical_Panel_Inspection.pdf'')
              = ''electrical_panel_inspection.pdf''" by code_simp
  note A = document_type_detected [where si=rev and pdf_path="''/media/pdfs/Belt_Motor.pdf''"
      and pages="[''Check the PUMP and the pump valve'']" and avail=True
      and doc="Inl (FileDataError [])" and e="FileDataError []", unfolded Let_def e1 e2]
  note C = document_type_detected [where si=rev and pdf_path="''/media/pdfs/report_7.pdf''"
      and pages="[''Page 1 of 3'']" and avail=True and doc="Inl (FileDataError [])"
      and e="FileDataError []", unfolded Let_def e7]
  note D = document_type_detected [where si=rev
      and pdf_path="''/media/pdfs/Electrical_Panel_Inspection.pdf''"
      and pages="[''Page 1 of 3'']" and avail=False and doc="Inr [''Page 1 of 3'']"
      and e="FileDataError []", unfolded Let_def e7 e8]
  let ?r1 = "detect_document_type True rev (Inr [''Check the PUMP and the pump valve''])
      ''/media/pdfs/Belt_Motor.pdf''"
  have ex1: "\<exists>c \<in> set categories. 0 < ?T c" using e3 e5 by force
  from A rev_ok ex1 have "?r1 \<in> set categories" and "\<forall>c \<in> set categories. ?T c \<le> ?T ?r1"
    by blast+
  then have "?r1 \<in> set categories" and "6 \<le> ?T ?r1" using e3 e5 by force+
  then have r1: "?r1 = ''hydraulic''" using e4 by force
  let ?r2 = "detect_document_type True rev (Inl (FileDataError [])) ''/media/pdfs/Belt_Motor.pdf''"
  have ex2: "\<exists>c \<in> set categories. 0 < ?F c" using e6 by force
  from A ex2 have r2in: "?r2 \<in> set categories" and r2ge: "\<forall>c \<in> set categories. ?F c \<le> ?F ?r2"
    and r2first: "\<forall>c \<in> set (takeWhile (\<lambda>c. c \<noteq> ?r2) categories). ?F c < ?F ?r2"
    by blast+
  have "?F ?r2 = 1" using r2in r2ge e6 e6a by force
  then have r2: "?r2 = ''conveyor''" using r2first e6b r2in e6(1) by force
  have r4: "detect_document_type True rev (Inr [''Page 1 of 3'']) ''/media/pdfs/report_7.pdf'' = ''general''"
    using C rev_ok e7a by blast
  have r5: "detect_document_type False rev (Inr [''Page 1 of 3''])
      ''/media/pdfs/Electrical_Panel_Inspection.pdf'' = ''electrical''"
    using D by blast
  have r6: "detect_document_type True rev (Inr [''Page 1 of 3''])
      ''/media/pdfs/Electrical_Panel_Inspection.pdf'' = ''electrical''"
    using D rev_ok e7b by blast
  show ?thesis using rev_ok e3 e6 e8 r1 r2 r4 r5 r6 by simp
qed

section \<open>Properties of the extraction pipeline\<close>

lemma has_tasks_append [simp]: "has_tasks (xs @ ys) \<longleftrightarrow> has_tasks xs \<and> has_tasks ys"
  by (simp add: has_tasks_def)

lemma has_tasks_Nil [simp]: "has_tasks []"
  by (simp add: has_tasks_def)

lemma has_tasks_Cons [simp]: "has_tasks (x # xs) \<longleftrightarrow> ins_tasks x \<noteq> [] \<and> has_tasks xs"
  by (simp add: has_tasks_def)

















lemma heuristic_chain_cases:
  fixes env all_text
  defines "re \<equiv> re_finditer env"
  defines "custom \<equiv> extract_custom_user_systems re all_text"
  defines "belt \<equiv> extract_belt_scraper_systems re all_text"
  defines "patterns \<equiv> extract_system_checklist_patterns re all_text"
  defines "generic \<equiv> extract_generic_systems re (set_iteration env) all_text"
  defines "items \<equiv> extract_checklist_items re all_text"
  defines "fallback \<equiv> create_intelligent_fallback all_text"
  shows "heuristic_chain env all_text =
     (if custom \<noteq> [] then ([Custom], custom)
      else if belt \<noteq> [] then ([Custom, BeltScraper], belt)
      else if patterns \<noteq> [] then ([Custom, BeltScraper, SystemChecklist], patterns)
      else if PYMUPDF_AVAILABLE env then
        (if generic @ items \<noteq> []
         then ([Custom, BeltScraper, SystemChecklist, Generic, ChecklistItems], generic @ items)
         else ([Custom, BeltScraper, SystemChecklist, Generic, ChecklistItems, IntelligentFallback],
               fallback))
      else ([Custom, BeltScraper, SystemChecklist, IntelligentFallback], fallback))"
  unfolding heuristic_chain_def Let_def re_def custom_def belt_def patterns_def generic_def
    items_def fallback_def
  by (simp split: prod.splits)






lemma timed_has_tasks [simp]:
  "result_has_tasks (r \<lparr> processing_time := t \<rparr>) = result_has_tasks r"
  by (simp add: result_has_tasks_def)





lemma oil_generic:
  "extract_generic_systems oil_matches (\<lambda>xs. xs) (oil_page @ ''\<newline>'') = [oil_generic_system]"
  by code_simp

lemma oil_items:
  "extract_checklist_items oil_matches (oil_page @ ''\<newline>'') = [oil_checklist_system]"
  by code_simp

lemma oil_chain:
  "heuristic_chain (local_env oil_matches [oil_page]) (oil_page @ ''\<newline>'')
     = ([Custom, BeltScraper, SystemChecklist, Generic, ChecklistItems],
        [oil_generic_system, oil_checklist_system])"
  by code_simp


lemma conveyor_custom:
  "extract_custom_user_systems conveyor_matches conveyor_text = conveyor_systems"
  by code_simp

lemma conveyor_chain:
  "heuristic_chain (local_env conveyor_matches [conveyor_page, conveyor_page]) conveyor_text
     = ([Custom], conveyor_systems)"
  by code_simp



lemma read_all_text_cases:
  "read_all_text env pdf_path = Inl e \<longleftrightarrow> open_pdf env pdf_path = Inl e"
  "(\<exists>t. read_all_text env pdf_path = Inr t) \<longleftrightarrow> (\<exists>pages. open_pdf env pdf_path = Inr pages)"
  by (auto simp: read_all_text_def split: sum.splits)




text \<open>
  Claim C5 as stated fails: on the example page the generic strategy finds a system, and
  the checklist-item strategy is still called and adds a second system.
\<close>

theorem strategies_combined_counterexample:
  "extract_generic_systems oil_matches (\<lambda>xs. xs) (oil_page @ ''\<newline>'') = [oil_generic_system] \<and>
   extract_checklist_items oil_matches (oil_page @ ''\<newline>'') = [oil_checklist_system] \<and>
   heuristic_chain (local_env oil_matches [oil_page]) (oil_page @ ''\<newline>'')
     = ([Custom, BeltScraper, SystemChecklist, Generic, ChecklistItems],
        [oil_generic_system, oil_checklist_system])"
  using oil_generic oil_items oil_chain by simp

text \<open>
  Claim C5, amended. The chain calls the custom strategy; it calls the belt-scraper strategy
  only if that found nothing, and the system-checklist strategy only if both found nothing;
  the first of these three that finds systems ends the chain and alone supplies the result.
  If all three find nothing and PyMuPDF is installed, the generic strategy and the
  checklist-item strategy are both called and their systems are concatenated. The fallback
  is called only if nothing was found so far, and then supplies the result.
\<close>

theorem chain_stops_at_first_success:
  "heuristic_chain env all_text =
     (let re = re_finditer env;
          custom = extract_custom_user_systems re all_text;
          belt = extract_belt_scraper_systems re all_text;
          patterns = extract_system_checklist_patterns re all_text;
          generic = extract_generic_systems re (set_iteration env) all_text;
          items = extract_checklist_items re all_text;
          fallback = create_intelligent_fallback all_text
      in if custom \<noteq> [] then ([Custom], custom)
         else if belt \<noteq> [] then ([Custom, BeltScraper], belt)
         else if patterns \<noteq> [] then ([Custom, BeltScraper, SystemChecklist], patterns)
         else if PYMUPDF_AVAILABLE env then
           (if generic @ items \<noteq> []
            then ([Custom, BeltScraper, SystemChecklist, Generic, ChecklistItems], generic @ items)
            else ([Custom, BeltScraper, SystemChecklist, Generic, ChecklistItems,
                   IntelligentFallback], fallback))
         else ([Custom, BeltScraper, SystemChecklist, IntelligentFallback], fallback))"
  unfolding Let_def by (rule heuristic_chain_cases)

text \<open>On the conveyor document the custom strategy succeeds and nothing else is called.\<close>

theorem chain_stops_at_first_success_witness:
  "extract_custom_user_systems conveyor_matches conveyor_text = conveyor_systems \<and>
   heuristic_chain (local_env conveyor_matches [conveyor_page, conveyor_page]) conveyor_text
     = ([Custom], conveyor_systems)"
proof -
  have ne: "conveyor_systems \<noteq> []" by (simp add: conveyor_systems_def)
  have re: "re_finditer (local_env conveyor_matches [conveyor_page, conveyor_page]) = conveyor_matches"
    by (simp add: local_env_def)
  show ?thesis
    using chain_stops_at_first_success
      [of "local_env conveyor_matches [conveyor_page, conveyor_page]" conveyor_text]
      conveyor_custom ne
    by (simp add: re Let_def)
qed






end
